theory Spec2Isabelle
  imports Main "HOL-Library.AList" "HOL-Library.Multiset"
begin

section \<open>Python values: errors, arrays, dictionaries\<close>

text \<open>
  Every exception the modelled code can raise is a value: a function that can raise
  returns \<open>py_error + 'a\<close>, with \<open>Inl\<close> for the exception.
\<close>

datatype py_error = KeyError | IndexError | ValueError | TypeError

text \<open>
  A NumPy array is its shape together with its entries in column-major (Fortran) order,
  the order every reshape and flatten of the modelled code uses. A one-dimensional
  vector is a plain list.
\<close>

record 'a ndarray =
  shape :: "nat list"
  fdata :: "'a list"

text \<open>\<open>xs[off:off+n]\<close>: a Python slice stops at the end of the list without raising.\<close>

definition slice :: "'a list \<Rightarrow> nat \<Rightarrow> nat \<Rightarrow> 'a list" where
  "slice xs off n = take n (drop off xs)"

text \<open>
  \<open>np.reshape(value, shape, order='F')\<close> of a vector: the sizes must agree, and the
  entries stay in column-major order.
\<close>

definition reshapeF :: "'a list \<Rightarrow> nat list \<Rightarrow> py_error + 'a ndarray" where
  "reshapeF val shp =
     (if prod_list shp = length val then Inr \<lparr>shape = shp, fdata = val\<rparr> else Inl ValueError)"

text \<open>\<open>value.flatten(order='F')\<close>.\<close>

definition flattenF :: "'a ndarray \<Rightarrow> 'a list" where
  "flattenF arr = fdata arr"

text \<open>
  \<open>vec[off:off+n] = val\<close> on a NumPy vector: the slice is cut at the end of \<open>vec\<close>;
  \<open>val\<close> must have the length of the slice or length one (it is then broadcast).
\<close>

definition assign_slice :: "'a list \<Rightarrow> nat \<Rightarrow> nat \<Rightarrow> 'a list \<Rightarrow> py_error + 'a list" where
  "assign_slice vec off n val =
     (let len = length (slice vec off n) in
      if length val = len then Inr (take off vec @ val @ drop (off + len) vec)
      else if length val = 1 then Inr (take off vec @ replicate len (hd val) @ drop (off + len) vec)
      else Inl ValueError)"

text \<open>
  A dictionary whose iteration order matters is an association list in insertion order:
  \<open>d[k] = v\<close> replaces the value of a key already present in place, and appends a new
  key at the end. A dictionary that is only looked up is a map.
\<close>

type_synonym ('k, 'v) dict = "('k \<times> 'v) list"

definition dict_set :: "('k, 'v) dict \<Rightarrow> 'k \<Rightarrow> 'v \<Rightarrow> ('k, 'v) dict" where
  "dict_set d k v = AList.update k v d"

definition dict_values :: "('k, 'v) dict \<Rightarrow> 'v list" where
  "dict_values d = map snd d"

text \<open>\<open>d[k]\<close> on a dictionary that is a map.\<close>

definition lookup :: "('k \<rightharpoonup> 'v) \<Rightarrow> 'k \<Rightarrow> py_error + 'v" where
  "lookup m k = (case m k of None \<Rightarrow> Inl KeyError | Some v \<Rightarrow> Inr v)"

text \<open>\<open>list(d.values())[0]\<close>.\<close>

definition first_value :: "('k, 'v) dict \<Rightarrow> py_error + 'v" where
  "first_value d = (case dict_values d of [] \<Rightarrow> Inl IndexError | v # _ \<Rightarrow> Inr v)"

section \<open>Variables, constraints, solutions\<close>

text \<open>
  A variable (also a dual variable) is known by its id and its shape; its size is the
  product of the shape.
\<close>

record variable =
  var_id :: int
  var_shape :: "nat list"

definition var_size :: "variable \<Rightarrow> nat" where
  "var_size v = prod_list (var_shape v)"

datatype con_kind = Zero | NonPos | SOC | PSD | ExpCone | Equality | Inequality

text \<open>
  Expressions are external to the reductions; what the stuffing code does with a
  constraint argument is subtract, transpose and ask for the shape.
\<close>

datatype expr = Opaque nat "nat list" | Sub expr expr | Transpose expr

record constraint =
  kind :: con_kind
  constr_id :: int
  args :: "expr list"
  dual_variables :: "variable list"
  axis :: nat

record InverseData =
  var_offsets :: "(int, nat) dict"
  var_shapes :: "int \<rightharpoonup> nat list"
  param_id_map :: "(int, nat) dict"
  dv_id_map :: "int \<rightharpoonup> variable"
  constraints :: "constraint list"
  minimize :: bool

text \<open>
  A solver's solution maps ids to values of type \<open>'v\<close>: flat vectors before the
  inversion, shaped arrays after it. \<open>opt_val\<close> and \<open>dual_vars\<close> may be \<open>None\<close>.
\<close>

record ('a, 'v, 'attr) Solution =
  status :: string
  opt_val :: "'a option"
  primal_vars :: "(int, 'v) dict"
  dual_vars :: "(int, 'v) dict option"
  attr :: 'attr

section \<open>MatrixStuffing.invert\<close>

text \<open>Unary minus on \<open>opt_val\<close>: \<open>-None\<close> raises a TypeError.\<close>

definition py_neg :: "'a::uminus option \<Rightarrow> py_error + 'a option" where
  "py_neg v = (case v of None \<Rightarrow> Inl TypeError | Some x \<Rightarrow> Inr (Some (- x)))"

text \<open>The loop over \<open>var_map.items()\<close> that splits the flat primal vector.\<close>

fun invert_primal ::
  "'a list \<Rightarrow> (int \<rightharpoonup> nat list) \<Rightarrow> (int, nat) dict \<Rightarrow> (int, 'a ndarray) dict
     \<Rightarrow> py_error + (int, 'a ndarray) dict" where
  "invert_primal x_opt shapes [] primal = Inr primal"
| "invert_primal x_opt shapes ((vid, offset) # rest) primal =
     (case lookup shapes vid of
        Inl e \<Rightarrow> Inl e
      | Inr shp \<Rightarrow>
          (case reshapeF (slice x_opt offset (prod_list shp)) shp of
             Inl e \<Rightarrow> Inl e
           | Inr arr \<Rightarrow> invert_primal x_opt shapes rest (dict_set primal vid arr)))"

text \<open>
  The inner loop over \<open>constr.dual_variables\<close> and the outer loop over
  \<open>inverse_data.constraints\<close>; the state is the running offset and the result map.
\<close>

fun invert_dual_con ::
  "'a list \<Rightarrow> (int \<rightharpoonup> variable) \<Rightarrow> variable list \<Rightarrow> nat \<times> (int, 'a ndarray) dict
     \<Rightarrow> py_error + nat \<times> (int, 'a ndarray) dict" where
  "invert_dual_con dual_var dvmap [] st = Inr st"
| "invert_dual_con dual_var dvmap (dv # rest) (offset, duals) =
     (case lookup dvmap (var_id dv) of
        Inl e \<Rightarrow> Inl e
      | Inr dv_old \<Rightarrow>
          (case reshapeF (slice dual_var offset (var_size dv)) (var_shape dv) of
             Inl e \<Rightarrow> Inl e
           | Inr arr \<Rightarrow>
               invert_dual_con dual_var dvmap rest
                 (offset + var_size dv, dict_set duals (var_id dv_old) arr)))"

fun invert_dual ::
  "'a list \<Rightarrow> (int \<rightharpoonup> variable) \<Rightarrow> constraint list \<Rightarrow> nat \<times> (int, 'a ndarray) dict
     \<Rightarrow> py_error + nat \<times> (int, 'a ndarray) dict" where
  "invert_dual dual_var dvmap [] st = Inr st"
| "invert_dual dual_var dvmap (constr # rest) st =
     (case invert_dual_con dual_var dvmap (dual_variables constr) st of
        Inl e \<Rightarrow> Inl e
      | Inr st' \<Rightarrow> invert_dual dual_var dvmap rest st')"

text \<open>
  \<open>MatrixStuffing.invert\<close>. The status lists \<open>s.ERROR\<close> and \<open>s.SOLUTION_PRESENT\<close>
  of the settings module are parameters.
\<close>

definition invert ::
  "string list \<Rightarrow> string list \<Rightarrow> ('a::uminus, 'a list, 'attr) Solution \<Rightarrow> InverseData
     \<Rightarrow> py_error + ('a, 'a ndarray, 'attr) Solution" where
  "invert ERROR SOLUTION_PRESENT solution inverse_data =
     (let var_map = var_offsets inverse_data in
      case (if status solution \<notin> set ERROR \<and> \<not> minimize inverse_data
            then py_neg (opt_val solution) else Inr (opt_val solution)) of
        Inl e \<Rightarrow> Inl e
      | Inr opt \<Rightarrow>
          if status solution \<notin> set SOLUTION_PRESENT
          then Inr \<lparr>status = status solution, opt_val = opt, primal_vars = [],
                    dual_vars = Some [], attr = attr solution\<rparr>
          else
            (case first_value (primal_vars solution) of
               Inl e \<Rightarrow> Inl e
             | Inr x_opt \<Rightarrow>
                 (case invert_primal x_opt (var_shapes inverse_data) var_map [] of
                    Inl e \<Rightarrow> Inl e
                  | Inr primal \<Rightarrow>
                      (case dual_vars solution of
                         None \<Rightarrow>
                           Inr \<lparr>status = status solution, opt_val = opt, primal_vars = primal,
                                dual_vars = Some [], attr = attr solution\<rparr>
                       | Some dvs \<Rightarrow>
                           (case first_value dvs of
                              Inl e \<Rightarrow> Inl e
                            | Inr dual_var \<Rightarrow>
                                (case invert_dual dual_var (dv_id_map inverse_data)
                                        (constraints inverse_data) (0, []) of
                                   Inl e \<Rightarrow> Inl e
                                 | Inr (offset, duals) \<Rightarrow>
                                     Inr \<lparr>status = status solution, opt_val = opt,
                                          primal_vars = primal, dual_vars = Some duals,
                                          attr = attr solution\<rparr>))))))"

section \<open>ParamConeProg\<close>

text \<open>
  A parameter has an id, a shape and a stored value, \<open>None\<close> while it is unset.
\<close>

record 'a parameter =
  param_id :: int
  param_shape :: "nat list"
  param_value :: "'a ndarray option"

definition param_size :: "'a parameter \<Rightarrow> nat" where
  "param_size p = prod_list (param_shape p)"

text \<open>
  A (SciPy sparse) matrix by its shape and its entries, row by row. The model keeps the
  entries as data and does no arithmetic on them.
\<close>

record 'a matrix =
  nrows :: nat
  ncols :: nat
  mrows :: "'a list list"

text \<open>
  NumPy and SciPy compute in float64 and are external to the repository. What the
  modelled code uses of them is a parameter of the model: the value \<open>nan\<close>, the product
  of a sparse matrix with a dense vector and the product of a sparse matrix with a sparse
  column, both as the vector of the entries of the result. The scalars \<open>'a\<close> are
  float64 values, of which the model itself writes only 0 and 1.
\<close>

record 'a numerics =
  np_nan :: 'a
  sp_matvec :: "'a matrix \<Rightarrow> 'a list \<Rightarrow> 'a list"
  sp_matmat :: "'a matrix \<Rightarrow> 'a list \<Rightarrow> 'a list"

text \<open>\<open>M @ v\<close> raises a ValueError when the dimensions do not match.\<close>

definition matmul ::
  "('a matrix \<Rightarrow> 'a list \<Rightarrow> 'a list) \<Rightarrow> 'a matrix \<Rightarrow> 'a list \<Rightarrow> py_error + 'a list" where
  "matmul product M v = (if ncols M = length v then Inr (product M v) else Inl ValueError)"

text \<open>
  The fields a \<open>ParamConeProg\<close> is constructed from. The fields its constructor
  derives (\<open>id_to_param\<close>, \<open>total_param_size\<close>, \<open>id_to_var\<close>) are functions of these;
  in a dictionary comprehension a later entry with the same key wins.
\<close>

record 'a ParamConeProg =
  prog_c :: "'a matrix"
  prog_x :: variable
  prog_A :: "'a matrix"
  variables :: "variable list"
  var_id_to_col :: "(int, nat) dict"
  prog_constraints :: "constraint list"
  parameters :: "'a parameter list"
  param_id_to_col :: "(int, nat) dict"

definition id_to_param :: "'a ParamConeProg \<Rightarrow> int \<rightharpoonup> 'a parameter" where
  "id_to_param prog = map_of (rev (map (\<lambda>p. (param_id p, p)) (parameters prog)))"

definition total_param_size :: "'a ParamConeProg \<Rightarrow> nat" where
  "total_param_size prog = sum_list (map param_size (parameters prog))"

definition id_to_var :: "'a ParamConeProg \<Rightarrow> int \<rightharpoonup> variable" where
  "id_to_var prog = map_of (rev (map (\<lambda>v. (var_id v, v)) (variables prog)))"

subsection \<open>apply_parameters\<close>

text \<open>
  The inner function \<open>param_value\<close> followed by \<open>.flatten(order='F')\<close>. Without a
  mapping the stored value is read; with a mapping only the mapping is read. The result
  \<open>None\<close> stands for the one-element object array that \<open>np.array(None)\<close> flattens to.
\<close>

definition param_value_flat ::
  "'a ParamConeProg \<Rightarrow> (int \<rightharpoonup> 'a ndarray) option \<Rightarrow> int \<Rightarrow> py_error + 'a list option" where
  "param_value_flat prog id_to_param_value idx =
     (case id_to_param_value of
        None \<Rightarrow>
          (case lookup (id_to_param prog) idx of
             Inl e \<Rightarrow> Inl e
           | Inr p \<Rightarrow> Inr (map_option flattenF (param_value p)))
      | Some m \<Rightarrow>
          (case lookup m idx of
             Inl e \<Rightarrow> Inl e
           | Inr v \<Rightarrow> Inr (Some (flattenF v))))"

text \<open>
  \<open>param_vec[col:n+col] = value\<close>. The object array \<open>[None]\<close> of an unset value is
  broadcast over the slice and converted to float64, which turns \<open>None\<close> into \<open>nan\<close>.
\<close>

definition assign_value ::
  "'a numerics \<Rightarrow> 'a list \<Rightarrow> nat \<Rightarrow> nat \<Rightarrow> 'a list option \<Rightarrow> py_error + 'a list" where
  "assign_value F vec off n val =
     (case val of
        None \<Rightarrow> assign_slice vec off n [np_nan F]
      | Some xs \<Rightarrow> assign_slice vec off n xs)"

text \<open>
  The loop over \<open>param_id_to_col.items()\<close>. \<open>CONSTANT_ID\<close> (of the lin_op module)
  is a parameter of the model.
\<close>

fun fill_param_vec ::
  "'a::{zero,one} numerics \<Rightarrow> int \<Rightarrow> 'a ParamConeProg \<Rightarrow> (int \<rightharpoonup> 'a ndarray) option
     \<Rightarrow> (int, nat) dict \<Rightarrow> 'a list \<Rightarrow> py_error + 'a list" where
  "fill_param_vec F CONSTANT_ID prog id_to_param_value [] param_vec = Inr param_vec"
| "fill_param_vec F CONSTANT_ID prog id_to_param_value ((pid, col) # rest) param_vec =
     (if pid = CONSTANT_ID then
        (if col < length param_vec
         then fill_param_vec F CONSTANT_ID prog id_to_param_value rest (param_vec[col := 1])
         else Inl IndexError)
      else
        (case param_value_flat prog id_to_param_value pid of
           Inl e \<Rightarrow> Inl e
         | Inr val \<Rightarrow>
             (case lookup (id_to_param prog) pid of
                Inl e \<Rightarrow> Inl e
              | Inr param \<Rightarrow>
                  (case assign_value F param_vec col (param_size param) val of
                     Inl e \<Rightarrow> Inl e
                   | Inr param_vec' \<Rightarrow>
                       fill_param_vec F CONSTANT_ID prog id_to_param_value rest param_vec'))))"

text \<open>Lines 80 to 89: the flattened parameter vector.\<close>

definition flat_param_vec ::
  "'a::{zero,one} numerics \<Rightarrow> int \<Rightarrow> 'a ParamConeProg \<Rightarrow> (int \<rightharpoonup> 'a ndarray) option
     \<Rightarrow> py_error + 'a list" where
  "flat_param_vec F CONSTANT_ID prog id_to_param_value =
     fill_param_vec F CONSTANT_ID prog id_to_param_value (param_id_to_col prog)
       (replicate (total_param_size prog + 1) 0)"

text \<open>
  Lines 90 to 98: the vector \<open>c\<close> and the matrix \<open>A\<close> for a parameter vector. The
  product \<open>self.A @ param_vec\<close> is a column with \<open>A.shape[0]\<close> rows; it is reshaped in
  column-major order to \<open>A.shape[0] // var_size\<close> rows and \<open>var_size\<close> columns, which
  raises a ValueError when the sizes do not agree.
\<close>

definition stuffed_coeffs ::
  "'a numerics \<Rightarrow> 'a ParamConeProg \<Rightarrow> 'a list \<Rightarrow> py_error + 'a list \<times> 'a ndarray" where
  "stuffed_coeffs F prog param_vec =
     (case matmul (sp_matvec F) (prog_c prog) param_vec of
        Inl e \<Rightarrow> Inl e
      | Inr c \<Rightarrow>
          (let var_size = var_size (prog_x prog) + 1 in
           case matmul (sp_matmat F) (prog_A prog) param_vec of
             Inl e \<Rightarrow> Inl e
           | Inr Av \<Rightarrow>
               (if (nrows (prog_A prog) div var_size) * var_size = nrows (prog_A prog)
                then Inr (c, \<lparr>shape = [nrows (prog_A prog) div var_size, var_size],
                              fdata = Av\<rparr>)
                else Inl ValueError)))"

definition apply_parameters ::
  "'a::{zero,one} numerics \<Rightarrow> int \<Rightarrow> 'a ParamConeProg \<Rightarrow> (int \<rightharpoonup> 'a ndarray) option
     \<Rightarrow> py_error + 'a list \<times> 'a ndarray" where
  "apply_parameters F CONSTANT_ID prog id_to_param_value =
     (case flat_param_vec F CONSTANT_ID prog id_to_param_value of
        Inl e \<Rightarrow> Inl e
      | Inr param_vec \<Rightarrow> stuffed_coeffs F prog param_vec)"

subsection \<open>split_solution and split_adjoint\<close>

fun split_solution_loop ::
  "'a ParamConeProg \<Rightarrow> 'b list \<Rightarrow> int set \<Rightarrow> (int, nat) dict \<Rightarrow> (int, 'b ndarray) dict
     \<Rightarrow> py_error + (int, 'b ndarray) dict" where
  "split_solution_loop prog sltn active_vars [] sltn_dict = Inr sltn_dict"
| "split_solution_loop prog sltn active_vars ((vid, col) # rest) sltn_dict =
     (if vid \<in> active_vars then
        (case lookup (id_to_var prog) vid of
           Inl e \<Rightarrow> Inl e
         | Inr var \<Rightarrow>
             (case reshapeF (slice sltn col (var_size var)) (var_shape var) of
                Inl e \<Rightarrow> Inl e
              | Inr arr \<Rightarrow>
                  split_solution_loop prog sltn active_vars rest (dict_set sltn_dict vid arr)))
      else split_solution_loop prog sltn active_vars rest sltn_dict)"

definition split_solution ::
  "'a ParamConeProg \<Rightarrow> 'b list \<Rightarrow> int set option \<Rightarrow> py_error + (int, 'b ndarray) dict" where
  "split_solution prog sltn active_vars =
     split_solution_loop prog sltn
       (case active_vars of None \<Rightarrow> var_id ` set (variables prog) | Some a \<Rightarrow> a)
       (var_id_to_col prog) []"

fun split_adjoint_loop ::
  "'a ParamConeProg \<Rightarrow> (int, 'b ndarray) dict \<Rightarrow> 'b list \<Rightarrow> py_error + 'b list" where
  "split_adjoint_loop prog [] var_vec = Inr var_vec"
| "split_adjoint_loop prog ((vid, delta) # rest) var_vec =
     (case lookup (id_to_var prog) vid of
        Inl e \<Rightarrow> Inl e
      | Inr var \<Rightarrow>
          (case lookup (map_of (var_id_to_col prog)) vid of
             Inl e \<Rightarrow> Inl e
           | Inr col \<Rightarrow>
               (case assign_slice var_vec col (var_size var) (flattenF delta) of
                  Inl e \<Rightarrow> Inl e
                | Inr var_vec' \<Rightarrow> split_adjoint_loop prog rest var_vec')))"

definition split_adjoint ::
  "'a ParamConeProg \<Rightarrow> (int, 'b::zero ndarray) dict \<Rightarrow> py_error + 'b list" where
  "split_adjoint prog del_vars =
     split_adjoint_loop prog del_vars (replicate (var_size (prog_x prog)) 0)"

text \<open>
  The invariant of \<open>var_id_to_col\<close>: its keys are distinct (it is a dictionary) and
  are variables of the program, every column range lies in \<open>[0, x.size)\<close>, and every
  column belongs to exactly one range.
\<close>

definition covers :: "'a ParamConeProg \<Rightarrow> int \<times> nat \<Rightarrow> nat \<Rightarrow> bool" where
  "covers prog e j =
     (case id_to_var prog (fst e) of
        None \<Rightarrow> False
      | Some var \<Rightarrow> snd e \<le> j \<and> j < snd e + var_size var)"

definition var_cols_partition :: "'a ParamConeProg \<Rightarrow> bool" where
  "var_cols_partition prog \<longleftrightarrow>
     distinct (map fst (var_id_to_col prog)) \<and>
     (\<forall>e \<in> set (var_id_to_col prog).
        case id_to_var prog (fst e) of
          None \<Rightarrow> False
        | Some var \<Rightarrow> snd e + var_size var \<le> var_size (prog_x prog)) \<and>
     (\<forall>j \<in> set [0..<var_size (prog_x prog)].
        length (filter (\<lambda>e. covers prog e j) (var_id_to_col prog)) = 1)"

text \<open>
  The first entry of a dictionary, for stating what \<open>invert\<close> reads of the maps of a
  solution.
\<close>

definition first_entry :: "('k, 'v) dict \<Rightarrow> ('k \<times> 'v) option" where
  "first_entry d = (case d of [] \<Rightarrow> None | kv # _ \<Rightarrow> Some kv)"

section \<open>The reductions' apply\<close>

text \<open>The shape of a constraint argument.\<close>

fun expr_shape :: "expr \<Rightarrow> nat list" where
  "expr_shape (Opaque n shp) = shp"
| "expr_shape (Sub a b) = (if expr_shape a = [] then expr_shape b else expr_shape a)"
| "expr_shape (Transpose a) = rev (expr_shape a)"

definition expr_size :: "expr \<Rightarrow> nat" where
  "expr_size a = prod_list (expr_shape a)"

text \<open>
  Modelled from the spec: the constraint classes are not among the sources. A newly
  constructed constraint carries freshly created dual variables, one for each of its
  arguments and of that argument's shape; fresh ids come from the process-wide
  increasing id counter, which the model passes along as \<open>next_id\<close>.
\<close>

fun fresh_duals :: "expr list \<Rightarrow> int \<Rightarrow> variable list" where
  "fresh_duals [] next_id = []"
| "fresh_duals (a # as) next_id =
     \<lparr>var_id = next_id, var_shape = expr_shape a\<rparr> # fresh_duals as (next_id + 1)"

definition new_constraint ::
  "con_kind \<Rightarrow> expr list \<Rightarrow> int \<Rightarrow> nat \<Rightarrow> int \<Rightarrow> constraint \<times> int" where
  "new_constraint k as cid ax next_id =
     (\<lparr>kind = k, constr_id = cid, args = as, dual_variables = fresh_duals as next_id, axis = ax\<rparr>,
      next_id + int (length as))"

text \<open>
  Modelled from the spec: \<open>lower_equality\<close> and \<open>lower_inequality\<close> of the utilities
  module are not among the sources. They turn an Equality into a Zero constraint and an
  Inequality into a NonPos constraint on the difference of the two sides, keeping the
  constraint id.
\<close>

definition lower_equality :: "constraint \<Rightarrow> int \<Rightarrow> py_error + constraint \<times> int" where
  "lower_equality con next_id =
     (case args con of
        lhs # rhs # _ \<Rightarrow> Inr (new_constraint Zero [Sub lhs rhs] (constr_id con) 0 next_id)
      | _ \<Rightarrow> Inl IndexError)"

definition lower_inequality :: "constraint \<Rightarrow> int \<Rightarrow> py_error + constraint \<times> int" where
  "lower_inequality con next_id =
     (case args con of
        lhs # rhs # _ \<Rightarrow> Inr (new_constraint NonPos [Sub lhs rhs] (constr_id con) 0 next_id)
      | _ \<Rightarrow> Inl IndexError)"

text \<open>
  The \<open>if\<close>/\<open>elif\<close> chain both \<open>apply\<close> methods lower a constraint with; a
  constraint of any other kind is kept as the object it is.
\<close>

definition lower_con :: "constraint \<Rightarrow> int \<Rightarrow> py_error + constraint \<times> int" where
  "lower_con con next_id =
     (if kind con = Equality then lower_equality con next_id
      else if kind con = Inequality then lower_inequality con next_id
      else if kind con = SOC \<and> axis con = 1 then
        (case args con of
           a0 # a1 # _ \<Rightarrow> Inr (new_constraint SOC [a0, Transpose a1] (constr_id con) 0 next_id)
         | _ \<Rightarrow> Inl IndexError)
      else Inr (con, next_id))"

text \<open>
  \<open>for dv_old, dv_new in zip(...): inverse_data.dv_id_map[dv_new] = dv_old\<close>. The map
  is keyed by the dual variable object, which the model identifies by its id.
\<close>

fun record_duals ::
  "(variable \<times> variable) list \<Rightarrow> (int \<rightharpoonup> variable) \<Rightarrow> (int \<rightharpoonup> variable)" where
  "record_duals [] m = m"
| "record_duals ((dv_old, dv_new) # rest) m = record_duals rest (m(var_id dv_new \<mapsto> dv_old))"

text \<open>
  Modelled from the spec: \<open>group_constraints\<close> of the utilities module is not among
  the sources. It partitions the constraints by kind, keeping the order inside a kind.
\<close>

definition group_constraints :: "constraint list \<Rightarrow> con_kind \<Rightarrow> constraint list" where
  "group_constraints cons k = filter (\<lambda>c. kind c = k) cons"

record 'a problem =
  objective_minimize :: bool
  objective_expr :: expr
  prob_constraints :: "constraint list"
  prob_variables :: "variable list"
  prob_parameters :: "'a parameter list"

subsection \<open>ConeMatrixStuffing.apply\<close>

text \<open>
  The lowering loop of \<open>ConeMatrixStuffing.apply\<close>: the state is the list \<open>cons\<close>,
  the map \<open>dv_id_map\<close> and the id counter. The original constraint is remembered as
  \<open>orig_con\<close>, and its dual variables are recorded.
\<close>

fun cone_lower_loop ::
  "constraint list \<Rightarrow> constraint list \<times> (int \<rightharpoonup> variable) \<times> int
     \<Rightarrow> py_error + constraint list \<times> (int \<rightharpoonup> variable) \<times> int" where
  "cone_lower_loop [] st = Inr st"
| "cone_lower_loop (orig_con # rest) (cons, dvm, next_id) =
     (case lower_con orig_con next_id of
        Inl e \<Rightarrow> Inl e
      | Inr (con, next_id') \<Rightarrow>
          cone_lower_loop rest
            (cons @ [con],
             record_duals (zip (dual_variables orig_con) (dual_variables con)) dvm,
             next_id'))"

text \<open>
  \<open>ConeMatrixStuffing.apply\<close>. The coefficient extractor is external: its method
  \<open>affine\<close> and its \<open>x_length\<close> are parameters, and so is the \<open>InverseData\<close> that the
  constructor builds for the problem. The stacked variable \<open>x\<close> is a new variable of
  size \<open>x_length\<close>; its boolean and integer attributes are not modelled.
\<close>

definition cone_apply ::
  "(expr list \<Rightarrow> 'a matrix) \<Rightarrow> nat \<Rightarrow> InverseData \<Rightarrow> 'a problem \<Rightarrow> int
     \<Rightarrow> py_error + 'a ParamConeProg \<times> InverseData \<times> int" where
  "cone_apply affine x_length inverse_data problem next_id =
     (let c = affine [objective_expr problem];
          x = \<lparr>var_id = next_id, var_shape = [x_length]\<rparr> in
      case cone_lower_loop (prob_constraints problem) ([], dv_id_map inverse_data, next_id + 1) of
        Inl e \<Rightarrow> Inl e
      | Inr (cons, dvm, next_id') \<Rightarrow>
          (let constr_map = group_constraints cons;
               ordered_cons = constr_map Zero @ constr_map NonPos @ constr_map SOC
                              @ constr_map PSD @ constr_map ExpCone;
               expr_list = concat (map args ordered_cons);
               A = affine expr_list;
               inverse_data' = inverse_data\<lparr>dv_id_map := dvm, constraints := ordered_cons,
                                  minimize := objective_minimize problem\<rparr>
           in Inr (\<lparr>prog_c = c, prog_x = x, prog_A = A,
                    variables = prob_variables problem,
                    var_id_to_col = var_offsets inverse_data',
                    prog_constraints = ordered_cons,
                    parameters = prob_parameters problem,
                    param_id_to_col = param_id_map inverse_data'\<rparr>,
                   inverse_data', next_id')))"

subsection \<open>MatrixStuffing.apply\<close>

text \<open>The lowering loop of \<open>MatrixStuffing.apply\<close>; it records nothing.\<close>

fun lower_loop ::
  "constraint list \<Rightarrow> constraint list \<times> int \<Rightarrow> py_error + constraint list \<times> int" where
  "lower_loop [] st = Inr st"
| "lower_loop (con # rest) (cons, next_id) =
     (case lower_con con next_id of
        Inl e \<Rightarrow> Inl e
      | Inr (con', next_id') \<Rightarrow> lower_loop rest (cons @ [con'], next_id'))"

text \<open>
  The inner loop over \<open>con.args\<close>: the stuffed argument
  \<open>reshape(A * new_var + b, arg.shape)\<close> for the rows from \<open>offset\<close> on is written
  \<open>Opaque offset (expr_shape arg)\<close>.
\<close>

fun stuff_args :: "expr list \<Rightarrow> nat \<Rightarrow> expr list \<times> nat" where
  "stuff_args [] offset = ([], offset)"
| "stuff_args (arg # rest) offset =
     (let (arg_list, offset') = stuff_args rest (offset + expr_size arg)
      in (Opaque offset (expr_shape arg) # arg_list, offset'))"

text \<open>
  The loop over the lowered constraints \<open>cons\<close>. Modelled from the spec:
  \<open>con.copy(arg_list)\<close> is a new constraint of the same kind, id and axis on the new
  arguments, with fresh dual variables. The dual variables recorded in \<open>dv_id_map\<close> as
  the old ones are those of \<open>con\<close>, the loop variable over the lowered \<open>cons\<close>.
\<close>

fun copy_loop ::
  "constraint list \<Rightarrow> constraint list \<times> nat \<times> (int \<rightharpoonup> variable) \<times> int
     \<Rightarrow> constraint list \<times> nat \<times> (int \<rightharpoonup> variable) \<times> int" where
  "copy_loop [] st = st"
| "copy_loop (con # rest) (new_cons, offset, dvm, next_id) =
     (let (arg_list, offset') = stuff_args (args con) offset;
          (new_con, next_id') = new_constraint (kind con) arg_list (constr_id con) (axis con) next_id
      in copy_loop rest
           (new_cons @ [new_con], offset',
            record_duals (zip (dual_variables con) (dual_variables new_con)) dvm, next_id'))"

text \<open>
  \<open>MatrixStuffing.apply\<close>. The objective and the variable that the subclass's
  \<open>stuffed_objective\<close> returns are parameters. The result is the pair of arguments of
  the new problem \<open>Problem(Minimize(new_obj), new_cons)\<close> and the inverse data.
\<close>

definition matrix_apply ::
  "expr \<Rightarrow> InverseData \<Rightarrow> 'a problem \<Rightarrow> int
     \<Rightarrow> py_error + (expr \<times> constraint list) \<times> InverseData \<times> int" where
  "matrix_apply new_obj inverse_data problem next_id =
     (case lower_loop (prob_constraints problem) ([], next_id) of
        Inl e \<Rightarrow> Inl e
      | Inr (cons, next_id') \<Rightarrow>
          (let (new_cons, offset, dvm, next_id'') =
                 copy_loop cons ([], 0, dv_id_map inverse_data, next_id')
           in Inr ((new_obj, new_cons),
                   inverse_data\<lparr>dv_id_map := dvm, minimize := objective_minimize problem\<rparr>,
                   next_id'')))"

text \<open>
  The five kinds a lowered constraint can have, in the order of the concatenation, and
  the constraints whose lowering finds the two arguments it reads.
\<close>

definition five_kinds :: "con_kind list" where
  "five_kinds = [Zero, NonPos, SOC, PSD, ExpCone]"

definition wf_args :: "constraint \<Rightarrow> bool" where
  "wf_args con \<longleftrightarrow>
     (kind con = Equality \<or> kind con = Inequality \<or> (kind con = SOC \<and> axis con = 1)
        \<longrightarrow> 2 \<le> length (args con))"

section \<open>The scope treat_params_as_affine\<close>

text \<open>
  The state the scope works on: the flag \<open>_is_constant\<close> of every parameter (by id)
  and the cached constancy of the expression. Of the expression the scope uses the list
  \<open>expr.parameters()\<close> and \<open>expr._check_is_constant(recompute=True)\<close>, which
  recomputes the cached constancy from the current flags; the recomputation itself is
  external and a parameter of the model. The enclosing \<open>perf.disable_caches()\<close>
  scope is external as well and does not touch these flags.
\<close>

record scope_state =
  is_constant_flag :: "int \<Rightarrow> bool"
  cached_constant :: bool

record scoped_expr =
  expr_parameters :: "int list"
  check_is_constant :: "(int \<Rightarrow> bool) \<Rightarrow> bool"

text \<open>Lines 33 to 36: save each flag, then clear it.\<close>

fun save_flags :: "int list \<Rightarrow> (int \<Rightarrow> bool) \<Rightarrow> bool list \<times> (int \<Rightarrow> bool)" where
  "save_flags [] flags = ([], flags)"
| "save_flags (p # ps) flags =
     (let (old, flags') = save_flags ps (flags(p := False)) in (flags p # old, flags'))"

text \<open>Lines 41 and 42: restore the saved flags.\<close>

fun restore_flags :: "(int \<times> bool) list \<Rightarrow> (int \<Rightarrow> bool) \<Rightarrow> (int \<Rightarrow> bool)" where
  "restore_flags [] flags = flags"
| "restore_flags ((p, flag) # rest) flags = restore_flags rest (flags(p := flag))"

text \<open>
  The scope around a body. The body gets the state and returns an exception (\<open>Inl\<close>)
  or a result (\<open>Inr\<close>) with the state it leaves. The generator has no
  \<open>try\<close>/\<open>finally\<close> around its \<open>yield\<close>: an exception of the body is thrown into the
  generator at the \<open>yield\<close> and leaves it at once, so the lines after the \<open>yield\<close>
  run only when the body returns.
\<close>

definition treat_params_as_affine ::
  "scoped_expr \<Rightarrow> (scope_state \<Rightarrow> ('e + 'r) \<times> scope_state) \<Rightarrow> scope_state
     \<Rightarrow> ('e + 'r) \<times> scope_state" where
  "treat_params_as_affine expr body st =
     (let (old_constant_flags, flags1) = save_flags (expr_parameters expr) (is_constant_flag st);
          st1 = \<lparr>is_constant_flag = flags1, cached_constant = check_is_constant expr flags1\<rparr>;
          (res, st2) = body st1
      in case res of
           Inl exc \<Rightarrow> (Inl exc, st2)
         | Inr r \<Rightarrow>
             (let flags3 = restore_flags (zip (expr_parameters expr) old_constant_flags)
                             (is_constant_flag st2)
              in (Inr r, \<lparr>is_constant_flag = flags3,
                          cached_constant = check_is_constant expr flags3\<rparr>)))"

section \<open>Linear combinations of values\<close>




text \<open>The assignment that gives every parameter its stored value.\<close>

definition stored_values :: "'a ParamConeProg \<Rightarrow> int \<rightharpoonup> 'a ndarray" where
  "stored_values prog = (\<lambda>i. case id_to_param prog i of None \<Rightarrow> None | Some p \<Rightarrow> param_value p)"

section \<open>The invariant of param_id_to_col\<close>

text \<open>
  The keys of \<open>param_id_to_col\<close> are distinct, the constant slot is one column and
  every other key is a parameter with its column range, all inside
  \<open>[0, total_param_size + 1)\<close>, and every column belongs to exactly one of them.
\<close>

definition pcovers :: "int \<Rightarrow> 'a ParamConeProg \<Rightarrow> int \<times> nat \<Rightarrow> nat \<Rightarrow> bool" where
  "pcovers cid prog e j =
     (if fst e = cid then j = snd e
      else (case id_to_param prog (fst e) of
              None \<Rightarrow> False
            | Some p \<Rightarrow> snd e \<le> j \<and> j < snd e + param_size p))"

definition param_cols_partition :: "int \<Rightarrow> 'a ParamConeProg \<Rightarrow> bool" where
  "param_cols_partition cid prog \<longleftrightarrow>
     distinct (map fst (param_id_to_col prog)) \<and>
     (\<forall>e \<in> set (param_id_to_col prog).
        if fst e = cid then snd e \<le> total_param_size prog
        else (case id_to_param prog (fst e) of
                None \<Rightarrow> False
              | Some p \<Rightarrow> snd e + param_size p \<le> total_param_size prog + 1)) \<and>
     (\<forall>j \<in> set [0..<total_param_size prog + 1].
        length (filter (\<lambda>e. pcovers cid prog e j) (param_id_to_col prog)) = 1)"

text \<open>
  An assignment that gives every parameter of \<open>param_id_to_col\<close> a value of the
  parameter's shape.
\<close>

definition values_for :: "int \<Rightarrow> 'a ParamConeProg \<Rightarrow> (int \<rightharpoonup> 'b ndarray) \<Rightarrow> bool" where
  "values_for cid prog p \<longleftrightarrow>
     (\<forall>e \<in> set (param_id_to_col prog).
        fst e = cid \<or>
        (case id_to_param prog (fst e) of
           None \<Rightarrow> True
         | Some q \<Rightarrow> (case p (fst e) of
                       None \<Rightarrow> False
                     | Some v \<Rightarrow> shape v = param_shape q \<and> length (fdata v) = param_size q)))"

text \<open>
  An entry of \<open>param_id_to_col\<close> that the loop of \<open>apply_parameters\<close> can write into a
  vector of length \<open>N\<close>: the constant slot is a column of the vector, and a parameter
  has a value of its size in the mapping and its column range inside the vector.
\<close>

definition entry_ok ::
  "int \<Rightarrow> 'a ParamConeProg \<Rightarrow> (int \<rightharpoonup> 'b ndarray) \<Rightarrow> nat \<Rightarrow> int \<times> nat \<Rightarrow> bool" where
  "entry_ok cid prog m N e \<longleftrightarrow>
     (if fst e = cid then snd e < N
      else (case id_to_param prog (fst e) of
              None \<Rightarrow> False
            | Some q \<Rightarrow>
                (case m (fst e) of
                   None \<Rightarrow> False
                 | Some x \<Rightarrow> length (fdata x) = param_size q \<and> snd e + param_size q \<le> N)))"

section \<open>Example programs\<close>

text \<open>
  For the examples, the float64 values that the examples meet: \<open>Fin i\<close> is the float64
  value of the integer \<open>i\<close>, for \<open>i\<close> between \<open>-2^53\<close> and \<open>2^53\<close> (the sign of a zero
  is not tracked), and \<open>NaN\<close> is \<open>nan\<close>. A sum or a product of two such integers is
  exact in float64 as long as it stays in this range; a result outside it is
  \<open>Untracked\<close>, a float64 value of which the examples say nothing.
\<close>

datatype fl64 = Fin int | NaN | Untracked

definition fl_exact :: "int \<Rightarrow> fl64" where
  "fl_exact i = (if \<bar>i\<bar> \<le> 9007199254740992 then Fin i else Untracked)"

instantiation fl64 :: "{zero,one,plus,times}"
begin

definition zero_fl64 :: fl64 where
  "zero_fl64 = Fin 0"

definition one_fl64 :: fl64 where
  "one_fl64 = Fin 1"

fun plus_fl64 :: "fl64 \<Rightarrow> fl64 \<Rightarrow> fl64" where
  "plus_fl64 (Fin x) (Fin y) = fl_exact (x + y)"
| "plus_fl64 Untracked y = Untracked"
| "plus_fl64 x Untracked = Untracked"
| "plus_fl64 x y = NaN"

fun times_fl64 :: "fl64 \<Rightarrow> fl64 \<Rightarrow> fl64" where
  "times_fl64 (Fin x) (Fin y) = fl_exact (x * y)"
| "times_fl64 Untracked y = Untracked"
| "times_fl64 x Untracked = Untracked"
| "times_fl64 x y = NaN"

instance ..

end

text \<open>
  The two products of the examples, computed row by row: each entry is the sum, from the
  left, of the products of the stored entries of a row with the vector. A sparse matrix
  stores no zero, so that a zero of the matrix meets no entry of the vector.
\<close>

definition dot :: "fl64 list \<Rightarrow> fl64 list \<Rightarrow> fl64" where
  "dot r v = foldl (\<lambda>acc (a, x). if a = Fin 0 then acc else acc + a * x) 0 (zip r v)"

definition row_product :: "fl64 matrix \<Rightarrow> fl64 list \<Rightarrow> fl64 list" where
  "row_product M v = map (\<lambda>r. dot r v) (mrows M)"

definition example_numerics :: "fl64 numerics" where
  "example_numerics = \<lparr>np_nan = NaN, sp_matvec = row_product, sp_matmat = row_product\<rparr>"

text \<open>
  A program with one scalar parameter (id 1, no stored value) in column 0 and the
  constant term in column 1; \<open>CONSTANT_ID\<close> is \<open>-1\<close>.
\<close>

definition example_prog :: "fl64 ParamConeProg" where
  "example_prog =
     \<lparr>prog_c = \<lparr>nrows = 2, ncols = 2, mrows = [[Fin 2, Fin 5], [Fin 0, Fin 7]]\<rparr>,
      prog_x = \<lparr>var_id = 9, var_shape = [1]\<rparr>,
      prog_A = \<lparr>nrows = 2, ncols = 2, mrows = [[Fin 1, Fin 0], [Fin 0, Fin 3]]\<rparr>,
      variables = [\<lparr>var_id = 3, var_shape = [1]\<rparr>],
      var_id_to_col = [(3, 0)],
      prog_constraints = [],
      parameters = [\<lparr>param_id = 1, param_shape = [], param_value = None\<rparr>],
      param_id_to_col = [(1, 0), (- 1, 1)]\<rparr>"

text \<open>
  A program with a scalar parameter (id 1) and a parameter of shape \<open>(2,)\<close> (id 2),
  both with stored values.
\<close>

definition example_prog2 :: "fl64 ParamConeProg" where
  "example_prog2 =
     \<lparr>prog_c = \<lparr>nrows = 2, ncols = 4,
                mrows = [[Fin 2, Fin 1, Fin 1, Fin 5], [Fin 0, Fin 0, Fin 0, Fin 7]]\<rparr>,
      prog_x = \<lparr>var_id = 9, var_shape = [1]\<rparr>,
      prog_A = \<lparr>nrows = 2, ncols = 4,
                mrows = [[Fin 1, Fin 0, Fin 0, Fin 0], [Fin 0, Fin 1, Fin 1, Fin 3]]\<rparr>,
      variables = [\<lparr>var_id = 3, var_shape = [1]\<rparr>],
      var_id_to_col = [(3, 0)],
      prog_constraints = [],
      parameters =
        [\<lparr>param_id = 1, param_shape = [],
          param_value = Some \<lparr>shape = [], fdata = [Fin 4]\<rparr>\<rparr>,
         \<lparr>param_id = 2, param_shape = [2],
          param_value = Some \<lparr>shape = [2], fdata = [Fin 4, Fin 6]\<rparr>\<rparr>],
      param_id_to_col = [(1, 0), (2, 1), (- 1, 3)]\<rparr>"

text \<open>
  A problem with an inequality and an equality constraint, and the inverse data its
  constructor would build for it.
\<close>

definition example_problem :: "int problem" where
  "example_problem =
     \<lparr>objective_minimize = True, objective_expr = Opaque 0 [],
      prob_constraints =
        [\<lparr>kind = Inequality, constr_id = 4, args = [Opaque 1 [], Opaque 2 []],
          dual_variables = [\<lparr>var_id = 8, var_shape = []\<rparr>, \<lparr>var_id = 9, var_shape = []\<rparr>],
          axis = 0\<rparr>,
         \<lparr>kind = Equality, constr_id = 5, args = [Opaque 3 [2], Opaque 4 [2]],
          dual_variables = [\<lparr>var_id = 6, var_shape = [2]\<rparr>, \<lparr>var_id = 7, var_shape = [2]\<rparr>],
          axis = 0\<rparr>],
      prob_variables = [\<lparr>var_id = 1, var_shape = [2]\<rparr>],
      prob_parameters = []\<rparr>"

definition example_inverse_data :: InverseData where
  "example_inverse_data =
     \<lparr>var_offsets = [(1, 0)], var_shapes = [1 \<mapsto> [2]], param_id_map = [(- 1, 0)],
      dv_id_map = Map.empty, constraints = [], minimize = True\<rparr>"

section \<open>Properties of MatrixStuffing.invert\<close>

lemma first_value_first_entry:
  "first_value d = (case first_entry d of None \<Rightarrow> Inl IndexError | Some kv \<Rightarrow> Inr (snd kv))"
  by (cases d) (simp_all add: first_value_def first_entry_def dict_values_def)

text \<open>
  C4 fails on one path. \<open>invert\<close> negates \<open>opt_val\<close> before it looks at the
  solution-present set; the guard skips the negation for error statuses and for a
  minimize, but not for a status that is neither an error status nor a solution-present
  one. For such a status, a maximize problem and \<open>opt_val\<close> \<open>None\<close>, \<open>-None\<close>
  raises a TypeError and no empty solution is returned.
\<close>

theorem invert_no_solution_type_error:
  "invert [''solver_error''] [''optimal'', ''optimal_inaccurate'']
     \<lparr>status = ''infeasible'', opt_val = (None :: int option), primal_vars = [(0, [1, 2])],
      dual_vars = None, attr = ()\<rparr>
     \<lparr>var_offsets = [(7, 0)], var_shapes = [7 \<mapsto> [2]], param_id_map = [], dv_id_map = Map.empty,
      constraints = [], minimize = False\<rparr>
   = Inl TypeError"
  by (simp add: invert_def py_neg_def)

text \<open>
  On the sibling paths the short circuit is taken: whenever the status is not in the
  solution-present set and the negation is skipped or has a value to negate, \<open>invert\<close>
  returns the solution with that status, empty \<open>primal_vars\<close> and empty \<open>dual_vars\<close>,
  whatever maps the input holds.
\<close>

lemma invert_short_circuit:
  assumes "status solution \<notin> set SOLUTION_PRESENT"
    and "opt_val solution \<noteq> None \<or> minimize inverse_data \<or> status solution \<in> set ERROR"
  shows "invert ERROR SOLUTION_PRESENT solution inverse_data =
           Inr \<lparr>status = status solution,
                opt_val = (if status solution \<notin> set ERROR \<and> \<not> minimize inverse_data
                           then map_option uminus (opt_val solution) else opt_val solution),
                primal_vars = [], dual_vars = Some [], attr = attr solution\<rparr>"
  using assms by (auto simp: invert_def py_neg_def split: option.splits)

text \<open>
  C5: whenever \<open>invert\<close> returns, the \<open>opt_val\<close> of the result is the negated input
  \<open>opt_val\<close> if the original objective was a maximize and the status is not an error
  status, and the unchanged input \<open>opt_val\<close> otherwise (in particular for every error
  status). Where the sign flip applies and there is no value to negate, \<open>invert\<close> raises.
\<close>

theorem invert_opt_val:
  "(invert ERROR SOLUTION_PRESENT solution inverse_data = Inr out \<longrightarrow>
      opt_val out = (if status solution \<notin> set ERROR \<and> \<not> minimize inverse_data
                     then map_option uminus (opt_val solution) else opt_val solution))
   \<and> (status solution \<notin> set ERROR \<and> \<not> minimize inverse_data \<and> opt_val solution = None \<longrightarrow>
      invert ERROR SOLUTION_PRESENT solution inverse_data = Inl TypeError)"
  by (auto simp: invert_def py_neg_def split: option.splits sum.splits if_splits)

theorem invert_opt_val_witness:
  "invert [''solver_error''] [''optimal'', ''optimal_inaccurate'']
     \<lparr>status = ''optimal'', opt_val = Some (5 :: int), primal_vars = [(0, [1, 2, 3])],
      dual_vars = None, attr = ()\<rparr>
     \<lparr>var_offsets = [(7, 0), (8, 1)], var_shapes = [7 \<mapsto> [], 8 \<mapsto> [2]],
      param_id_map = [], dv_id_map = Map.empty, constraints = [], minimize = False\<rparr>
   = Inr \<lparr>status = ''optimal'', opt_val = Some (- 5),
          primal_vars = [(7, \<lparr>shape = [], fdata = [1]\<rparr>), (8, \<lparr>shape = [2], fdata = [2, 3]\<rparr>)],
          dual_vars = Some [], attr = ()\<rparr>
   \<and> opt_val \<lparr>status = ''optimal'', opt_val = Some (- 5 :: int),
          primal_vars = [(7, \<lparr>shape = [], fdata = [1 :: int]\<rparr>), (8, \<lparr>shape = [2], fdata = [2, 3]\<rparr>)],
          dual_vars = Some [], attr = ()\<rparr> = map_option uminus (Some 5)
   \<and> invert [''solver_error''] [''optimal'', ''optimal_inaccurate'']
     \<lparr>status = ''solver_error'', opt_val = (None :: int option), primal_vars = [],
      dual_vars = None, attr = ()\<rparr>
     \<lparr>var_offsets = [(7, 0), (8, 1)], var_shapes = [7 \<mapsto> [], 8 \<mapsto> [2]],
      param_id_map = [], dv_id_map = Map.empty, constraints = [], minimize = False\<rparr>
   = Inr \<lparr>status = ''solver_error'', opt_val = None, primal_vars = [],
          dual_vars = Some [], attr = ()\<rparr>
   \<and> invert [''solver_error''] [''optimal'', ''optimal_inaccurate'']
     \<lparr>status = ''unbounded'', opt_val = (None :: int option), primal_vars = [],
      dual_vars = None, attr = ()\<rparr>
     \<lparr>var_offsets = [(7, 0), (8, 1)], var_shapes = [7 \<mapsto> [], 8 \<mapsto> [2]],
      param_id_map = [], dv_id_map = Map.empty, constraints = [], minimize = False\<rparr>
   = Inl TypeError"
  using invert_opt_val [of "[''solver_error'']" "[''optimal'', ''optimal_inaccurate'']"
     "\<lparr>status = ''unbounded'', opt_val = (None :: int option), primal_vars = [],
      dual_vars = None, attr = ()\<rparr>"
     "\<lparr>var_offsets = [(7, 0), (8, 1)], var_shapes = [7 \<mapsto> [], 8 \<mapsto> [2]],
      param_id_map = [], dv_id_map = Map.empty, constraints = [], minimize = False\<rparr>"]
    invert_opt_val [of "[''solver_error'']" "[''optimal'', ''optimal_inaccurate'']"
     "\<lparr>status = ''optimal'', opt_val = Some (5 :: int), primal_vars = [(0, [1, 2, 3])],
      dual_vars = None, attr = ()\<rparr>"
     "\<lparr>var_offsets = [(7, 0), (8, 1)], var_shapes = [7 \<mapsto> [], 8 \<mapsto> [2]],
      param_id_map = [], dv_id_map = Map.empty, constraints = [], minimize = False\<rparr>"]
  by (simp add: invert_def py_neg_def first_value_def dict_values_def lookup_def reshapeF_def
        slice_def dict_set_def)

text \<open>
  C10: when the status is in the solution-present set, \<open>invert\<close> reads of
  \<open>primal_vars\<close> only its first entry and, when \<open>dual_vars\<close> is not \<open>None\<close>, of
  \<open>dual_vars\<close> only its first entry: two input solutions that agree on status,
  \<open>opt_val\<close>, \<open>attr\<close> and those first entries give the same result, whatever else the
  maps hold.
\<close>

theorem invert_first_entries:
  assumes "status s1 \<in> set SOLUTION_PRESENT"
    and "status s1 = status s2" and "opt_val s1 = opt_val s2" and "attr s1 = attr s2"
    and "first_entry (primal_vars s1) = first_entry (primal_vars s2)"
    and "map_option first_entry (dual_vars s1) = map_option first_entry (dual_vars s2)"
  shows "invert ERROR SOLUTION_PRESENT s1 inverse_data
       = invert ERROR SOLUTION_PRESENT s2 inverse_data"
proof -
  have p: "first_value (primal_vars s1) = first_value (primal_vars s2)"
    using assms(5) by (simp add: first_value_first_entry)
  have d: "map_option first_value (dual_vars s1) = map_option first_value (dual_vars s2)"
    using assms(6) by (cases "dual_vars s1"; cases "dual_vars s2") (simp_all add: first_value_first_entry)
  show ?thesis
  proof (cases "dual_vars s1")
    case None
    then have "dual_vars s2 = None" using d by simp
    with None p assms(2-4) show ?thesis by (simp add: invert_def cong: sum.case_cong option.case_cong if_cong)
  next
    case (Some a)
    then obtain b where b: "dual_vars s2 = Some b" and "first_value a = first_value b"
      using d by (cases "dual_vars s2") auto
    with Some p assms(2-4) show ?thesis by (simp add: invert_def cong: sum.case_cong option.case_cong if_cong)
  qed
qed

theorem invert_first_entries_witness:
  "invert [''solver_error''] [''optimal''] 
     \<lparr>status = ''optimal'', opt_val = Some (5 :: int), primal_vars = [(0, [1, 2, 3]), (1, [9])],
      dual_vars = Some [(2, [4, 6]), (3, [8])], attr = ()\<rparr>
     \<lparr>var_offsets = [(7, 0), (8, 1)], var_shapes = [7 \<mapsto> [], 8 \<mapsto> [2]],
      param_id_map = [], dv_id_map = [20 \<mapsto> \<lparr>var_id = 10, var_shape = [2]\<rparr>],
      constraints = [\<lparr>kind = Zero, constr_id = 30, args = [Opaque 0 [2]],
         dual_variables = [\<lparr>var_id = 20, var_shape = [2]\<rparr>], axis = 0\<rparr>], minimize = True\<rparr>
   = Inr \<lparr>status = ''optimal'', opt_val = Some 5,
          primal_vars = [(7, \<lparr>shape = [], fdata = [1]\<rparr>), (8, \<lparr>shape = [2], fdata = [2, 3]\<rparr>)],
          dual_vars = Some [(10, \<lparr>shape = [2], fdata = [4, 6]\<rparr>)], attr = ()\<rparr>
  \<and> invert [''solver_error''] [''optimal''] 
     \<lparr>status = ''optimal'', opt_val = Some (5 :: int), primal_vars = [(0, [1, 2, 3]), (1, [9])],
      dual_vars = Some [(2, [4, 6]), (3, [8])], attr = ()\<rparr>
     \<lparr>var_offsets = [(7, 0), (8, 1)], var_shapes = [7 \<mapsto> [], 8 \<mapsto> [2]],
      param_id_map = [], dv_id_map = [20 \<mapsto> \<lparr>var_id = 10, var_shape = [2]\<rparr>],
      constraints = [\<lparr>kind = Zero, constr_id = 30, args = [Opaque 0 [2]],
         dual_variables = [\<lparr>var_id = 20, var_shape = [2]\<rparr>], axis = 0\<rparr>], minimize = True\<rparr>
  = invert [''solver_error''] [''optimal''] 
     \<lparr>status = ''optimal'', opt_val = Some (5 :: int), primal_vars = [(0, [1, 2, 3])],
      dual_vars = Some [(2, [4, 6]), (5, [7, 7, 7])], attr = ()\<rparr>
     \<lparr>var_offsets = [(7, 0), (8, 1)], var_shapes = [7 \<mapsto> [], 8 \<mapsto> [2]],
      param_id_map = [], dv_id_map = [20 \<mapsto> \<lparr>var_id = 10, var_shape = [2]\<rparr>],
      constraints = [\<lparr>kind = Zero, constr_id = 30, args = [Opaque 0 [2]],
         dual_variables = [\<lparr>var_id = 20, var_shape = [2]\<rparr>], axis = 0\<rparr>], minimize = True\<rparr>"
  using invert_first_entries [where ERROR = "[''solver_error'']"
     and SOLUTION_PRESENT = "[''optimal'']"
     and ?s1.0 = "\<lparr>status = ''optimal'', opt_val = Some (5 :: int),
       primal_vars = [(0, [1, 2, 3]), (1, [9])],
       dual_vars = Some [(2, [4, 6]), (3, [8])], attr = ()\<rparr>"
     and ?s2.0 = "\<lparr>status = ''optimal'', opt_val = Some (5 :: int),
       primal_vars = [(0, [1, 2, 3])],
       dual_vars = Some [(2, [4, 6]), (5, [7, 7, 7])], attr = ()\<rparr>"]
  by (simp add: invert_def py_neg_def first_value_def dict_values_def lookup_def reshapeF_def
        slice_def dict_set_def var_size_def first_entry_def)

section \<open>split_solution and split_adjoint are inverse to each other\<close>

lemma dict_set_fresh: "k \<notin> fst ` set d \<Longrightarrow> dict_set d k v = d @ [(k, v)]"
  unfolding dict_set_def by (induction d) auto

lemma id_to_var_Some_id: "id_to_var prog i = Some var \<Longrightarrow> i \<in> var_id ` set (variables prog)"
  unfolding id_to_var_def by (auto dest!: map_of_SomeD)

lemma assign_slice_exact:
  assumes "off + n \<le> length vec" and "length val = n"
  shows "assign_slice vec off n val = Inr (take off vec @ val @ drop (off + n) vec)"
  using assms by (simp add: assign_slice_def slice_def Let_def)

lemma nth_assign_exact:
  assumes "off + n \<le> length vec" and "length val = n" and "j < length vec"
  shows "(take off vec @ val @ drop (off + n) vec) ! j =
         (if off \<le> j \<and> j < off + n then val ! (j - off) else vec ! j)"
  using assms by (auto simp: nth_append min_def)

lemma split_solution_loop_all:
  assumes "distinct (map fst items)"
    and "fst ` set acc \<inter> fst ` set items = {}"
    and "\<forall>e \<in> set items. fst e \<in> active \<and>
           (case id_to_var prog (fst e) of None \<Rightarrow> False
            | Some var \<Rightarrow> snd e + var_size var \<le> length v)"
  shows "split_solution_loop prog v active items acc =
         Inr (acc @ map (\<lambda>e. (fst e, \<lparr>shape = var_shape (the (id_to_var prog (fst e))),
                  fdata = slice v (snd e) (var_size (the (id_to_var prog (fst e))))\<rparr>)) items)"
  using assms
proof (induction items arbitrary: acc)
  case Nil
  then show ?case by simp
next
  case (Cons e items)
  obtain vid col where e: "e = (vid, col)" by (cases e)
  from Cons.prems(3) e obtain var where var: "id_to_var prog vid = Some var"
    and le: "col + var_size var \<le> length v" and act: "vid \<in> active"
    by (auto split: option.splits)
  have fresh: "vid \<notin> fst ` set acc" using Cons.prems(2) e by auto
  let ?arr = "\<lparr>shape = var_shape var, fdata = slice v col (var_size var)\<rparr>"
  have rs: "reshapeF (slice v col (var_size var)) (var_shape var) = Inr ?arr"
    using le by (simp add: reshapeF_def slice_def var_size_def)
  have disj: "fst ` set (acc @ [(vid, ?arr)]) \<inter> fst ` set items = {}"
    using Cons.prems(1,2) e by auto
  have "split_solution_loop prog v active (e # items) acc =
        split_solution_loop prog v active items (acc @ [(vid, ?arr)])"
    using e var act rs fresh by (simp add: lookup_def dict_set_fresh)
  also have "\<dots> = Inr ((acc @ [(vid, ?arr)]) @ map (\<lambda>e. (fst e, \<lparr>shape = var_shape (the (id_to_var prog (fst e))),
                  fdata = slice v (snd e) (var_size (the (id_to_var prog (fst e))))\<rparr>)) items)"
    using Cons.prems(1,3) disj by (intro Cons.IH) auto
  finally show ?case using e var by simp
qed

lemma split_adjoint_loop_slices:
  assumes "distinct (map fst cols)"
    and "cols = var_id_to_col prog"
    and "set items \<subseteq> set cols"
    and "\<forall>e \<in> set cols. case id_to_var prog (fst e) of None \<Rightarrow> False
            | Some var \<Rightarrow> snd e + var_size var \<le> length v"
    and "length vec = length v"
  shows "\<exists>vec'. split_adjoint_loop prog
            (map (\<lambda>e. (fst e, \<lparr>shape = var_shape (the (id_to_var prog (fst e))),
                  fdata = slice v (snd e) (var_size (the (id_to_var prog (fst e))))\<rparr>)) items) vec
           = Inr vec' \<and> length vec' = length v \<and>
           (\<forall>j < length v. vec' ! j = (if \<exists>e \<in> set items. covers prog e j then v ! j else vec ! j))"
  using assms(3,5)
proof (induction items arbitrary: vec)
  case Nil
  then show ?case by simp
next
  case (Cons e items)
  obtain vid col where e: "e = (vid, col)" by (cases e)
  have mem: "(vid, col) \<in> set cols" using Cons.prems(1) e by simp
  with assms(4) obtain var where var: "id_to_var prog vid = Some var"
    and le: "col + var_size var \<le> length v"
    by (fastforce split: option.splits)
  have col: "map_of (var_id_to_col prog) vid = Some col"
    using mem assms(1,2) by simp
  let ?val = "slice v col (var_size var)"
  have lenval: "length ?val = var_size var" using le by (simp add: slice_def)
  let ?vec1 = "take col vec @ ?val @ drop (col + var_size var) vec"
  have as: "assign_slice vec col (var_size var) ?val = Inr ?vec1"
    using le lenval Cons.prems(2) by (intro assign_slice_exact) simp_all
  have len1: "length ?vec1 = length v" using le lenval Cons.prems(2) by simp
  have nth1: "\<And>j. j < length v \<Longrightarrow> ?vec1 ! j = (if covers prog e j then v ! j else vec ! j)"
  proof -
    fix j assume j: "j < length v"
    have "?vec1 ! j = (if col \<le> j \<and> j < col + var_size var then ?val ! (j - col) else vec ! j)"
      using le lenval Cons.prems(2) j by (intro nth_assign_exact) simp_all
    moreover have "col \<le> j \<and> j < col + var_size var \<Longrightarrow> ?val ! (j - col) = v ! j"
      using le by (auto simp: slice_def)
    ultimately show "?vec1 ! j = (if covers prog e j then v ! j else vec ! j)"
      using e var by (simp add: covers_def)
  qed
  from Cons.IH[of ?vec1] Cons.prems(1) len1
  obtain vec' where r: "split_adjoint_loop prog
            (map (\<lambda>e. (fst e, \<lparr>shape = var_shape (the (id_to_var prog (fst e))),
                  fdata = slice v (snd e) (var_size (the (id_to_var prog (fst e))))\<rparr>)) items) ?vec1
           = Inr vec'" and l: "length vec' = length v"
    and n: "\<forall>j < length v. vec' ! j = (if \<exists>e \<in> set items. covers prog e j then v ! j else ?vec1 ! j)"
    by auto
  have "split_adjoint_loop prog
            (map (\<lambda>e. (fst e, \<lparr>shape = var_shape (the (id_to_var prog (fst e))),
                  fdata = slice v (snd e) (var_size (the (id_to_var prog (fst e))))\<rparr>)) (e # items)) vec
        = Inr vec'"
    using e var col as r by (simp add: lookup_def flattenF_def)
  moreover have "\<forall>j < length v. vec' ! j = (if \<exists>e' \<in> set (e # items). covers prog e' j then v ! j else vec ! j)"
    using n nth1 by auto
  ultimately show ?case using l by blast
qed

text \<open>
  C1: for every \<open>ParamConeProg\<close> whose \<open>var_id_to_col\<close> ranges cover \<open>[0, x.size)\<close>
  without gaps or overlaps, and for every flat vector \<open>v\<close> of length \<open>x.size\<close>,
  \<open>split_solution(v)\<close> with the default \<open>active_vars\<close> returns a map, and
  \<open>split_adjoint\<close> of that map returns \<open>v\<close> exactly.
\<close>

theorem split_adjoint_split_solution:
  assumes "var_cols_partition prog" and "length v = var_size (prog_x prog)"
  shows "\<exists>d. split_solution prog v None = Inr d \<and> split_adjoint prog d = Inr v"
proof -
  let ?cols = "var_id_to_col prog"
  let ?f = "\<lambda>e. (fst e, \<lparr>shape = var_shape (the (id_to_var prog (fst e))),
                  fdata = slice v (snd e) (var_size (the (id_to_var prog (fst e))))\<rparr>)"
  have dist: "distinct (map fst ?cols)" using assms(1) by (simp add: var_cols_partition_def)
  have rng: "\<forall>e \<in> set ?cols. case id_to_var prog (fst e) of None \<Rightarrow> False
            | Some var \<Rightarrow> snd e + var_size var \<le> length v"
    using assms by (simp add: var_cols_partition_def cong: option.case_cong)
  have cov: "\<forall>j < length v. \<exists>e \<in> set ?cols. covers prog e j"
  proof (intro allI impI)
    fix j assume "j < length v"
    then have "length (filter (\<lambda>e. covers prog e j) ?cols) = 1"
      using assms by (simp add: var_cols_partition_def)
    then have "filter (\<lambda>e. covers prog e j) ?cols \<noteq> []" by auto
    then show "\<exists>e \<in> set ?cols. covers prog e j" by (simp add: filter_empty_conv)
  qed
  have act: "\<forall>e \<in> set ?cols. fst e \<in> var_id ` set (variables prog) \<and>
           (case id_to_var prog (fst e) of None \<Rightarrow> False
            | Some var \<Rightarrow> snd e + var_size var \<le> length v)"
    using rng by (auto split: option.splits dest: id_to_var_Some_id)
  have s: "split_solution prog v None = Inr (map ?f ?cols)"
    unfolding split_solution_def
    using split_solution_loop_all[OF dist _ act, of "[]"] by simp
  obtain vec' where r: "split_adjoint_loop prog (map ?f ?cols) (replicate (length v) 0) = Inr vec'"
    and l: "length vec' = length v"
    and n: "\<forall>j < length v. vec' ! j =
             (if \<exists>e \<in> set ?cols. covers prog e j then v ! j else replicate (length v) 0 ! j)"
    using split_adjoint_loop_slices[OF dist refl subset_refl rng, of "replicate (length v) 0"]
    by auto
  have "vec' = v" using l n cov by (intro nth_equalityI) auto
  then have "split_adjoint prog (map ?f ?cols) = Inr v"
    using r assms(2) by (simp add: split_adjoint_def)
  with s show ?thesis by blast
qed

theorem split_adjoint_split_solution_witness:
  "(let prog = \<lparr>prog_c = \<lparr>nrows = 4, ncols = 1, mrows = [[1], [2], [3], [0 :: int]]\<rparr>,
       prog_x = \<lparr>var_id = 9, var_shape = [3]\<rparr>,
       prog_A = \<lparr>nrows = 0, ncols = 1, mrows = []\<rparr>,
       variables = [\<lparr>var_id = 1, var_shape = []\<rparr>, \<lparr>var_id = 2, var_shape = [2, 1]\<rparr>],
       var_id_to_col = [(2, 1), (1, 0)],
       prog_constraints = [],
       parameters = [],
       param_id_to_col = [(- 1, 0)]\<rparr>;
        v = [10, 20, 30 :: int];
        d = [(2, \<lparr>shape = [2, 1], fdata = [20, 30]\<rparr>), (1, \<lparr>shape = [], fdata = [10]\<rparr>)]
    in var_cols_partition prog \<and> length v = var_size (prog_x prog) \<and>
       split_solution prog v None = Inr d \<and> split_adjoint prog d = Inr v)"
proof -
  let ?prog = "\<lparr>prog_c = \<lparr>nrows = 4, ncols = 1, mrows = [[1], [2], [3], [0 :: int]]\<rparr>,
       prog_x = \<lparr>var_id = 9, var_shape = [3]\<rparr>,
       prog_A = \<lparr>nrows = 0, ncols = 1, mrows = []\<rparr>,
       variables = [\<lparr>var_id = 1, var_shape = []\<rparr>, \<lparr>var_id = 2, var_shape = [2, 1]\<rparr>],
       var_id_to_col = [(2, 1), (1, 0)],
       prog_constraints = [],
       parameters = [],
       param_id_to_col = [(- 1, 0)]\<rparr>"
  have p: "var_cols_partition ?prog"
    by (simp add: var_cols_partition_def id_to_var_def var_size_def covers_def upt_rec)
  have l: "length [10, 20, 30 :: int] = var_size (prog_x ?prog)"
    by (simp add: var_size_def)
  have s: "split_solution ?prog [10, 20, 30 :: int] None =
      Inr [(2, \<lparr>shape = [2, 1], fdata = [20, 30]\<rparr>), (1, \<lparr>shape = [], fdata = [10]\<rparr>)]"
    by (simp add: split_solution_def id_to_var_def var_size_def lookup_def reshapeF_def
          slice_def dict_set_def)
  from split_adjoint_split_solution [OF p l] s p l show ?thesis
    by (simp add: Let_def)
qed

section \<open>Properties of apply_parameters\<close>

lemma length_assign_slice:
  "assign_slice vec off n val = Inr vec' \<Longrightarrow> length vec' = length vec"
  by (auto simp: assign_slice_def slice_def Let_def split: if_splits)

lemma length_assign_value:
  "assign_value F vec off n val = Inr vec' \<Longrightarrow> length vec' = length vec"
  by (auto simp: assign_value_def split: option.splits dest: length_assign_slice)

lemma fill_param_vec_Cons_Inr:
  "fill_param_vec F cid prog m ((pid, col) # items) vec = Inr r \<Longrightarrow>
   \<exists>vec1. length vec1 = length vec \<and> fill_param_vec F cid prog m items vec1 = Inr r"
proof (cases "pid = cid")
  case True
  assume "fill_param_vec F cid prog m ((pid, col) # items) vec = Inr r"
  with True have "fill_param_vec F cid prog m items (vec[col := 1]) = Inr r"
    by (auto split: if_splits)
  moreover have "length (vec[col := 1]) = length vec" by simp
  ultimately show ?thesis by blast
next
  case False
  assume "fill_param_vec F cid prog m ((pid, col) # items) vec = Inr r"
  with False show ?thesis
    by (auto split: sum.splits dest: length_assign_value)
qed

text \<open>An entry whose step raises for every vector of the given length makes the loop raise.\<close>

lemma fill_param_vec_fails:
  assumes "(pid, col) \<in> set items" and "pid \<noteq> cid"
    and "\<And>vec. length vec = n \<Longrightarrow>
           (case param_value_flat prog m pid of Inl e \<Rightarrow> True
            | Inr val \<Rightarrow> (case lookup (id_to_param prog) pid of Inl e \<Rightarrow> True
                | Inr param \<Rightarrow> isl (assign_value F vec col (param_size param) val)))"
    and "length vec = n"
  shows "isl (fill_param_vec F cid prog m items vec)"
  using assms(1,4)
proof (induction items arbitrary: vec)
  case Nil
  then show ?case by simp
next
  case (Cons e items)
  obtain pid' col' where e: "e = (pid', col')" by (cases e)
  show ?case
  proof (cases "e = (pid, col)")
    case True
    then show ?thesis
      using assms(2) assms(3)[OF Cons.prems(2)]
      by (auto split: sum.splits)
  next
    case False
    then have mem: "(pid, col) \<in> set items" using Cons.prems(1) by simp
    show ?thesis
    proof (cases "fill_param_vec F cid prog m (e # items) vec")
      case (Inl a)
      then show ?thesis by simp
    next
      case (Inr r)
      from fill_param_vec_Cons_Inr[OF Inr[unfolded e]]
      obtain vec1 where "length vec1 = length vec"
        "fill_param_vec F cid prog m items vec1 = Inr r" by blast
      then show ?thesis using Cons.IH[OF mem, of vec1] Cons.prems(2) by simp
    qed
  qed
qed

lemma fill_param_vec_stored:
  assumes "\<forall>e \<in> set items. fst e \<noteq> cid \<longrightarrow>
            (\<forall>q. id_to_param prog (fst e) = Some q \<longrightarrow> param_value q \<noteq> None)"
  shows "fill_param_vec F cid prog None items vec =
         fill_param_vec F cid prog (Some (stored_values prog)) items vec"
  using assms
proof (induction items arbitrary: vec)
  case Nil
  then show ?case by simp
next
  case (Cons e items)
  obtain pid col where e: "e = (pid, col)" by (cases e)
  have IH: "\<And>vec. fill_param_vec F cid prog None items vec =
         fill_param_vec F cid prog (Some (stored_values prog)) items vec"
    using Cons by simp
  show ?case
  proof (cases "pid = cid")
    case True
    then show ?thesis using e IH by simp
  next
    case False
    have "param_value_flat prog None pid = param_value_flat prog (Some (stored_values prog)) pid"
      using Cons.prems e False
      by (auto simp: param_value_flat_def stored_values_def lookup_def split: option.splits)
    then show ?thesis using e False IH by (simp cong: sum.case_cong)
  qed
qed

lemma disjoint_head:
  assumes "\<forall>j < N. length (filter (\<lambda>e. pcovers cid prog e j) (e # rest)) \<le> 1"
    and "pcovers cid prog e j" and "e' \<in> set rest" and "pcovers cid prog e' j" and "j < N"
  shows False
proof -
  have "filter (\<lambda>e. pcovers cid prog e j) rest \<noteq> []"
    using assms(3,4) by (auto simp: filter_empty_conv)
  then have "length (filter (\<lambda>e. pcovers cid prog e j) rest) \<ge> 1"
    by (cases "filter (\<lambda>e. pcovers cid prog e j) rest") simp_all
  then have "length (filter (\<lambda>e. pcovers cid prog e j) (e # rest)) \<ge> 2"
    using assms(2) by simp
  then show False using assms(1,5) by fastforce
qed

lemma disjoint_tail:
  assumes "\<forall>j < N. length (filter (\<lambda>e. pcovers cid prog e j) (e # rest)) \<le> 1"
  shows "\<forall>j < N. length (filter (\<lambda>e. pcovers cid prog e j) rest) \<le> 1"
proof (intro allI impI)
  fix j assume "j < N"
  then have "length (filter (\<lambda>e. pcovers cid prog e j) (e # rest)) \<le> 1" using assms by blast
  then show "length (filter (\<lambda>e. pcovers cid prog e j) rest) \<le> 1"
    by (simp split: if_splits)
qed

lemma pcovers_lt:
  "entry_ok cid prog m N e \<Longrightarrow> pcovers cid prog e j \<Longrightarrow> j < N"
  by (auto simp: entry_ok_def pcovers_def split: if_splits option.splits)

text \<open>One step of the loop on an entry that can be written.\<close>

lemma fill_param_vec_step:
  assumes "entry_ok cid prog m N (pid, col)" and "length u = N"
  shows "\<exists>u1. length u1 = N
           \<and> fill_param_vec F cid prog (Some m) ((pid, col) # items) u
               = fill_param_vec F cid prog (Some m) items u1
           \<and> (\<forall>j < N. u1 ! j =
                (if pcovers cid prog (pid, col) j
                 then (if pid = cid then 1
                       else (case m pid of None \<Rightarrow> u ! j | Some x \<Rightarrow> fdata x ! (j - col)))
                 else u ! j))"
proof (cases "pid = cid")
  case True
  then have c: "col < N" using assms(1) by (simp add: entry_ok_def)
  have "\<forall>j < N. (u[col := 1]) ! j = (if pcovers cid prog (pid, col) j then 1 else u ! j)"
    using True c assms(2) by (auto simp: pcovers_def nth_list_update)
  then show ?thesis using True c assms(2)
    by (intro exI[of _ "u[col := 1]"]) simp
next
  case False
  from assms(1) False obtain q x where q: "id_to_param prog pid = Some q"
    and x: "m pid = Some x" and lx: "length (fdata x) = param_size q"
    and rng: "col + param_size q \<le> N"
    by (auto simp: entry_ok_def split: option.splits)
  let ?u1 = "take col u @ fdata x @ drop (col + param_size q) u"
  have a: "assign_slice u col (param_size q) (fdata x) = Inr ?u1"
    using rng lx assms(2) by (intro assign_slice_exact) simp_all
  have l: "length ?u1 = N" using rng lx assms(2) by simp
  have f: "fill_param_vec F cid prog (Some m) ((pid, col) # items) u
               = fill_param_vec F cid prog (Some m) items ?u1"
    using False q x a
    by (simp add: param_value_flat_def lookup_def assign_value_def flattenF_def)
  have n: "\<forall>j < N. ?u1 ! j =
                (if pcovers cid prog (pid, col) j
                 then (if pid = cid then 1
                       else (case m pid of None \<Rightarrow> u ! j | Some x \<Rightarrow> fdata x ! (j - col)))
                 else u ! j)"
  proof (intro allI impI)
    fix j assume "j < N"
    then have "?u1 ! j = (if col \<le> j \<and> j < col + param_size q then fdata x ! (j - col) else u ! j)"
      using nth_assign_exact[of col "param_size q" u "fdata x" j] rng lx assms(2) by simp
    then show "?u1 ! j =
                (if pcovers cid prog (pid, col) j
                 then (if pid = cid then 1
                       else (case m pid of None \<Rightarrow> u ! j | Some x \<Rightarrow> fdata x ! (j - col)))
                 else u ! j)"
      using False q x by (simp add: pcovers_def)
  qed
  show ?thesis using l f n by blast
qed

text \<open>
  The loop on entries that can be written and whose column ranges do not overlap: it
  returns, every column of an entry holds what the entry writes, and every other column
  is unchanged.
\<close>

lemma fill_param_vec_nth:
  assumes "\<forall>j < N. length (filter (\<lambda>e. pcovers cid prog e j) items) \<le> 1"
    and "\<forall>e \<in> set items. entry_ok cid prog m N e"
    and "length u = N"
  shows "\<exists>w. fill_param_vec F cid prog (Some m) items u = Inr w \<and> length w = N
           \<and> (\<forall>e \<in> set items. \<forall>j. pcovers cid prog e j \<longrightarrow>
                w ! j = (if fst e = cid then 1
                         else (case m (fst e) of None \<Rightarrow> u ! j | Some x \<Rightarrow> fdata x ! (j - snd e))))
           \<and> (\<forall>j < N. (\<forall>e \<in> set items. \<not> pcovers cid prog e j) \<longrightarrow> w ! j = u ! j)"
  using assms
proof (induction items arbitrary: u)
  case Nil
  then show ?case by simp
next
  case (Cons e items)
  obtain pid col where e: "e = (pid, col)" by (cases e)
  have ok: "entry_ok cid prog m N (pid, col)" using Cons.prems(2) e by simp
  have oks: "\<forall>e \<in> set items. entry_ok cid prog m N e" using Cons.prems(2) by simp
  from fill_param_vec_step[OF ok Cons.prems(3), of F items]
  obtain u1 where l1: "length u1 = N"
    and f1: "fill_param_vec F cid prog (Some m) ((pid, col) # items) u
               = fill_param_vec F cid prog (Some m) items u1"
    and n1: "\<forall>j < N. u1 ! j =
                (if pcovers cid prog (pid, col) j
                 then (if pid = cid then 1
                       else (case m pid of None \<Rightarrow> u ! j | Some x \<Rightarrow> fdata x ! (j - col)))
                 else u ! j)"
    by blast
  from Cons.IH[OF disjoint_tail[OF Cons.prems(1)] oks l1]
  obtain w where fw: "fill_param_vec F cid prog (Some m) items u1 = Inr w" and lw: "length w = N"
    and cw: "\<forall>e \<in> set items. \<forall>j. pcovers cid prog e j \<longrightarrow>
                w ! j = (if fst e = cid then 1
                         else (case m (fst e) of None \<Rightarrow> u1 ! j | Some x \<Rightarrow> fdata x ! (j - snd e)))"
    and uw: "\<forall>j < N. (\<forall>e \<in> set items. \<not> pcovers cid prog e j) \<longrightarrow> w ! j = u1 ! j"
    by blast
  have some: "\<And>e'. e' \<in> set (e # items) \<Longrightarrow> fst e' \<noteq> cid \<Longrightarrow> m (fst e') \<noteq> None"
    using Cons.prems(2) by (auto simp: entry_ok_def split: option.splits if_splits)
  have c: "\<forall>e' \<in> set (e # items). \<forall>j. pcovers cid prog e' j \<longrightarrow>
                w ! j = (if fst e' = cid then 1
                         else (case m (fst e') of None \<Rightarrow> u ! j | Some x \<Rightarrow> fdata x ! (j - snd e')))"
  proof (intro ballI allI impI)
    fix e' j assume mem: "e' \<in> set (e # items)" and cov: "pcovers cid prog e' j"
    show "w ! j = (if fst e' = cid then 1
                         else (case m (fst e') of None \<Rightarrow> u ! j | Some x \<Rightarrow> fdata x ! (j - snd e')))"
    proof (cases "e' \<in> set items")
      case True
      with cw cov have "w ! j = (if fst e' = cid then 1
                         else (case m (fst e') of None \<Rightarrow> u1 ! j | Some x \<Rightarrow> fdata x ! (j - snd e')))"
        by blast
      then show ?thesis using some[OF mem] by (auto split: option.splits)
    next
      case False
      then have ee: "e' = (pid, col)" using mem e by simp
      have jN: "j < N" using pcovers_lt[OF ok] cov ee by simp
      have "\<forall>e'' \<in> set items. \<not> pcovers cid prog e'' j"
        using disjoint_head[OF Cons.prems(1) _ _ _ jN] cov ee e by blast
      then have "w ! j = u1 ! j" using uw jN by blast
      then show ?thesis using n1 jN cov unfolding ee by (simp cong: option.case_cong)
    qed
  qed
  have d: "\<forall>j < N. (\<forall>e' \<in> set (e # items). \<not> pcovers cid prog e' j) \<longrightarrow> w ! j = u ! j"
  proof (intro allI impI)
    fix j assume jN: "j < N" and nc: "\<forall>e' \<in> set (e # items). \<not> pcovers cid prog e' j"
    then have "w ! j = u1 ! j" using uw by simp
    moreover have "\<not> pcovers cid prog (pid, col) j" using nc e by simp
    ultimately show "w ! j = u ! j" using n1 jN by simp
  qed
  show ?case using f1 fw lw c d e by simp
qed

lemma entries_ok:
  assumes "param_cols_partition cid prog" and "values_for cid prog m"
  shows "\<forall>e \<in> set (param_id_to_col prog). entry_ok cid prog m (total_param_size prog + 1) e"
proof
  fix e assume e: "e \<in> set (param_id_to_col prog)"
  show "entry_ok cid prog m (total_param_size prog + 1) e"
  proof (cases "fst e = cid")
    case True
    then show ?thesis using assms(1) e by (auto simp: param_cols_partition_def entry_ok_def)
  next
    case False
    from assms(1) e False obtain q where q: "id_to_param prog (fst e) = Some q"
      and r: "snd e + param_size q \<le> total_param_size prog + 1"
      unfolding param_cols_partition_def by (fastforce split: option.splits)
    from assms(2) e False q obtain x where "m (fst e) = Some x" "length (fdata x) = param_size q"
      unfolding values_for_def by (fastforce split: option.splits)
    then show ?thesis using False q r by (simp add: entry_ok_def)
  qed
qed

lemma partition_disjoint:
  assumes "param_cols_partition cid prog"
  shows "\<forall>j < total_param_size prog + 1.
           length (filter (\<lambda>e. pcovers cid prog e j) (param_id_to_col prog)) \<le> 1"
proof (intro allI impI)
  fix j assume "j < total_param_size prog + 1"
  then have "j \<in> set [0..<total_param_size prog + 1]" by (simp only: set_upt atLeastLessThan_iff) simp
  with assms have "length (filter (\<lambda>e. pcovers cid prog e j) (param_id_to_col prog)) = 1"
    unfolding param_cols_partition_def by blast
  then show "length (filter (\<lambda>e. pcovers cid prog e j) (param_id_to_col prog)) \<le> 1" by simp
qed


text \<open>
  The parameter vector for a mapping of values of the parameters' shapes: the call
  returns, and every column holds what its entry writes.
\<close>

lemma flat_param_vec_nth:
  assumes "param_cols_partition cid prog" and "values_for cid prog m"
  shows "\<exists>w. flat_param_vec F cid prog (Some m) = Inr w \<and> length w = total_param_size prog + 1
           \<and> (\<forall>e \<in> set (param_id_to_col prog). \<forall>j. pcovers cid prog e j \<longrightarrow>
                (if fst e = cid then w ! j = 1
                 else (\<forall>x. m (fst e) = Some x \<longrightarrow> w ! j = fdata x ! (j - snd e))))"
proof -
  let ?N = "total_param_size prog + 1"
  let ?z = "replicate ?N (0 :: 'a)"
  have lz: "length ?z = ?N" by (simp only: length_replicate)
  from fill_param_vec_nth[OF partition_disjoint[OF assms(1)] entries_ok[OF assms] lz, of F]
  obtain w where f: "fill_param_vec F cid prog (Some m) (param_id_to_col prog) ?z = Inr w"
    and l: "length w = ?N"
    and c: "\<forall>e \<in> set (param_id_to_col prog). \<forall>j. pcovers cid prog e j \<longrightarrow>
                w ! j = (if fst e = cid then 1
                         else (case m (fst e) of None \<Rightarrow> ?z ! j | Some x \<Rightarrow> fdata x ! (j - snd e)))"
    by blast
  have "\<forall>e \<in> set (param_id_to_col prog). \<forall>j. pcovers cid prog e j \<longrightarrow>
                (if fst e = cid then w ! j = 1
                 else (\<forall>x. m (fst e) = Some x \<longrightarrow> w ! j = fdata x ! (j - snd e)))"
  proof (intro ballI allI impI)
    fix e j assume "e \<in> set (param_id_to_col prog)" and "pcovers cid prog e j"
    with c have "w ! j = (if fst e = cid then 1
                         else (case m (fst e) of None \<Rightarrow> ?z ! j | Some x \<Rightarrow> fdata x ! (j - snd e)))"
      by blast
    then show "if fst e = cid then w ! j = 1
                 else (\<forall>x. m (fst e) = Some x \<longrightarrow> w ! j = fdata x ! (j - snd e))"
      by (auto split: if_splits)
  qed
  with f l show ?thesis unfolding flat_param_vec_def by blast
qed

lemma flat_param_vec_isl:
  "isl (flat_param_vec F cid prog m) \<Longrightarrow> isl (apply_parameters F cid prog m)"
  by (auto simp: apply_parameters_def isl_def)

lemma slice_nth_eq:
  assumes "off + n \<le> length w" and "length xs = n" and "\<forall>i < n. w ! (off + i) = xs ! i"
  shows "slice w off n = xs"
  using assms by (intro nth_equalityI) (simp_all add: slice_def)

text \<open>
  C6, as stated, fails: the mapping does not override stored values one parameter at a
  time. Once a mapping is passed, every value is read from it and no stored value is
  read: a parameter with a stored value and no entry in the mapping raises a KeyError.
  Here both parameters have stored values (the call without a mapping returns), and the
  mapping mentions only parameter 1.
\<close>

theorem apply_parameters_override_counterexample:
  "apply_parameters example_numerics (- 1) example_prog2 None
     = Inr ([Fin 23, Fin 7], \<lparr>shape = [1, 2], fdata = [Fin 4, Fin 13]\<rparr>)
   \<and> apply_parameters example_numerics (- 1) example_prog2
        (Some [1 \<mapsto> \<lparr>shape = [], fdata = [Fin 1]\<rparr>])
     = Inl KeyError"
  by code_simp

text \<open>
  Without a mapping, a parameter with no stored value does not make the call fail
  either: NumPy converts the missing value to \<open>nan\<close>, which is written into the columns
  of the parameter and reaches the results.
\<close>

lemma apply_parameters_unset_value:
  "apply_parameters example_numerics (- 1) example_prog None
     = Inr ([NaN, Fin 7], \<lparr>shape = [1, 2], fdata = [NaN, Fin 3]\<rparr>)"
  by code_simp

text \<open>
  C6 (amended): a mapping that is passed replaces the stored values altogether. A
  parameter of \<open>param_id_to_col\<close> other than the constant slot that has no entry in the
  mapping makes the call fail, whether or not it has a stored value. When
  \<open>param_id_to_col\<close> satisfies its invariant and the mapping gives every parameter a
  value of the parameter's shape, the parameter vector is built, it holds the flattened
  value of the mapping in the columns of each parameter and 1 in the constant column,
  and the call returns what the coefficients give for this vector. When no mapping is
  passed and every parameter has a stored value, the call is the call with the mapping
  of all stored values: every parameter uses its stored value.
\<close>

theorem apply_parameters_values:
  fixes F :: "'a::{zero,one} numerics"
  shows
  "((pid, col) \<in> set (param_id_to_col prog) \<and> pid \<noteq> CONSTANT_ID \<and> m pid = None \<longrightarrow>
      isl (apply_parameters F CONSTANT_ID prog (Some m)))
   \<and> (param_cols_partition CONSTANT_ID prog \<and> values_for CONSTANT_ID prog m \<longrightarrow>
        (\<exists>w. flat_param_vec F CONSTANT_ID prog (Some m) = Inr w
           \<and> length w = total_param_size prog + 1
           \<and> apply_parameters F CONSTANT_ID prog (Some m) = stuffed_coeffs F prog w
           \<and> (\<forall>e \<in> set (param_id_to_col prog).
                 if fst e = CONSTANT_ID then w ! snd e = 1
                 else (case m (fst e) of
                         None \<Rightarrow> False
                       | Some v \<Rightarrow>
                           (case id_to_param prog (fst e) of
                              None \<Rightarrow> False
                            | Some q \<Rightarrow> slice w (snd e) (param_size q) = flattenF v)))))
   \<and> ((\<forall>e \<in> set (param_id_to_col prog). fst e \<noteq> CONSTANT_ID \<longrightarrow>
          (\<forall>q. id_to_param prog (fst e) = Some q \<longrightarrow> param_value q \<noteq> None)) \<longrightarrow>
        apply_parameters F CONSTANT_ID prog None =
        apply_parameters F CONSTANT_ID prog (Some (stored_values prog)))"
proof (intro conjI impI)
  assume a: "(pid, col) \<in> set (param_id_to_col prog) \<and> pid \<noteq> CONSTANT_ID \<and> m pid = None"
  then have mem: "(pid, col) \<in> set (param_id_to_col prog)" and ne: "pid \<noteq> CONSTANT_ID"
    and none: "m pid = None" by simp_all
  have "isl (fill_param_vec F CONSTANT_ID prog (Some m) (param_id_to_col prog)
          (replicate (total_param_size prog + 1) 0))"
    by (rule fill_param_vec_fails[OF mem ne, where n = "total_param_size prog + 1"])
       (simp_all add: none param_value_flat_def lookup_def)
  then show "isl (apply_parameters F CONSTANT_ID prog (Some m))"
    by (intro flat_param_vec_isl) (simp add: flat_param_vec_def)
next
  assume a: "param_cols_partition CONSTANT_ID prog \<and> values_for CONSTANT_ID prog m"
  then have p: "param_cols_partition CONSTANT_ID prog" and v: "values_for CONSTANT_ID prog m"
    by simp_all
  from flat_param_vec_nth[OF p v, of F]
  obtain w where f: "flat_param_vec F CONSTANT_ID prog (Some m) = Inr w"
    and l: "length w = total_param_size prog + 1"
    and c: "\<forall>e \<in> set (param_id_to_col prog). \<forall>j. pcovers CONSTANT_ID prog e j \<longrightarrow>
                (if fst e = CONSTANT_ID then w ! j = 1
                 else (\<forall>x. m (fst e) = Some x \<longrightarrow> w ! j = fdata x ! (j - snd e)))"
    by blast
  have ap: "apply_parameters F CONSTANT_ID prog (Some m) = stuffed_coeffs F prog w"
    using f by (simp add: apply_parameters_def)
  have "\<forall>e \<in> set (param_id_to_col prog).
                 if fst e = CONSTANT_ID then w ! snd e = 1
                 else (case m (fst e) of
                         None \<Rightarrow> False
                       | Some v \<Rightarrow>
                           (case id_to_param prog (fst e) of
                              None \<Rightarrow> False
                            | Some q \<Rightarrow> slice w (snd e) (param_size q) = flattenF v))"
  proof
    fix e assume e: "e \<in> set (param_id_to_col prog)"
    show "if fst e = CONSTANT_ID then w ! snd e = 1
                 else (case m (fst e) of
                         None \<Rightarrow> False
                       | Some v \<Rightarrow>
                           (case id_to_param prog (fst e) of
                              None \<Rightarrow> False
                            | Some q \<Rightarrow> slice w (snd e) (param_size q) = flattenF v))"
    proof (cases "fst e = CONSTANT_ID")
      case True
      then have "pcovers CONSTANT_ID prog e (snd e)" by (simp add: pcovers_def)
      with c e True show ?thesis by auto
    next
      case False
      from entries_ok[OF p v] e False obtain q x where q: "id_to_param prog (fst e) = Some q"
        and x: "m (fst e) = Some x" and lx: "length (fdata x) = param_size q"
        and rng: "snd e + param_size q \<le> total_param_size prog + 1"
        by (fastforce simp: entry_ok_def split: option.splits)
      have "\<forall>i < param_size q. w ! (snd e + i) = fdata x ! i"
      proof (intro allI impI)
        fix i assume "i < param_size q"
        then have "pcovers CONSTANT_ID prog e (snd e + i)" using False q by (simp add: pcovers_def)
        with c e False x show "w ! (snd e + i) = fdata x ! i" by fastforce
      qed
      then have "slice w (snd e) (param_size q) = fdata x"
        using rng l lx by (intro slice_nth_eq) simp_all
      then show ?thesis using False q x by (simp add: flattenF_def)
    qed
  qed
  with f l ap show "\<exists>w. flat_param_vec F CONSTANT_ID prog (Some m) = Inr w
           \<and> length w = total_param_size prog + 1
           \<and> apply_parameters F CONSTANT_ID prog (Some m) = stuffed_coeffs F prog w
           \<and> (\<forall>e \<in> set (param_id_to_col prog).
                 if fst e = CONSTANT_ID then w ! snd e = 1
                 else (case m (fst e) of
                         None \<Rightarrow> False
                       | Some v \<Rightarrow>
                           (case id_to_param prog (fst e) of
                              None \<Rightarrow> False
                            | Some q \<Rightarrow> slice w (snd e) (param_size q) = flattenF v)))"
    by blast
next
  assume "\<forall>e \<in> set (param_id_to_col prog). fst e \<noteq> CONSTANT_ID \<longrightarrow>
              (\<forall>q. id_to_param prog (fst e) = Some q \<longrightarrow> param_value q \<noteq> None)"
  then show "apply_parameters F CONSTANT_ID prog None =
            apply_parameters F CONSTANT_ID prog (Some (stored_values prog))"
    by (simp add: apply_parameters_def flat_param_vec_def fill_param_vec_stored)
qed

theorem apply_parameters_values_witness:
  "isl (apply_parameters example_numerics (- 1) example_prog2
          (Some [1 \<mapsto> \<lparr>shape = [], fdata = [Fin 1]\<rparr>]))
   \<and> (\<exists>w. flat_param_vec example_numerics (- 1) example_prog2
              (Some [1 \<mapsto> \<lparr>shape = [], fdata = [Fin 9]\<rparr>,
                     2 \<mapsto> \<lparr>shape = [2], fdata = [Fin 8, Fin 7]\<rparr>]) = Inr w
          \<and> slice w 0 1 = [Fin 9] \<and> slice w 1 2 = [Fin 8, Fin 7] \<and> w ! 3 = 1)
   \<and> apply_parameters example_numerics (- 1) example_prog2 None
     = apply_parameters example_numerics (- 1) example_prog2 (Some (stored_values example_prog2))"
proof -
  let ?m1 = "[1 \<mapsto> \<lparr>shape = [], fdata = [Fin 1]\<rparr>] :: int \<rightharpoonup> fl64 ndarray"
  let ?m2 = "[1 \<mapsto> \<lparr>shape = [], fdata = [Fin 9]\<rparr>,
              2 \<mapsto> \<lparr>shape = [2], fdata = [Fin 8, Fin 7]\<rparr>] :: int \<rightharpoonup> fl64 ndarray"
  have h1: "(2, 1) \<in> set (param_id_to_col example_prog2) \<and> (2 :: int) \<noteq> - 1 \<and> ?m1 2 = None"
    by (simp add: example_prog2_def)
  have h2: "param_cols_partition (- 1) example_prog2 \<and> values_for (- 1) example_prog2 ?m2"
    by code_simp
  have h3: "\<forall>e \<in> set (param_id_to_col example_prog2). fst e \<noteq> - 1 \<longrightarrow>
          (\<forall>q. id_to_param example_prog2 (fst e) = Some q \<longrightarrow> param_value q \<noteq> None)"
    by (simp add: example_prog2_def id_to_param_def)
  have ps: "id_to_param example_prog2 1 = Some \<lparr>param_id = 1, param_shape = [],
              param_value = Some \<lparr>shape = [], fdata = [Fin 4]\<rparr>\<rparr>"
      "id_to_param example_prog2 2 = Some \<lparr>param_id = 2, param_shape = [2],
              param_value = Some \<lparr>shape = [2], fdata = [Fin 4, Fin 6]\<rparr>\<rparr>"
      "param_id_to_col example_prog2 = [(1, 0), (2, 1), (- 1, 3)]"
    by (simp_all add: example_prog2_def id_to_param_def)
  from apply_parameters_values [of 2 1 example_prog2 "- 1" ?m1 example_numerics] h1
  have c1: "isl (apply_parameters example_numerics (- 1) example_prog2 (Some ?m1))"
    by blast
  from apply_parameters_values [of 2 1 example_prog2 "- 1" ?m2 example_numerics] h2
  obtain w where w: "flat_param_vec example_numerics (- 1) example_prog2 (Some ?m2) = Inr w"
    and b: "\<forall>e \<in> set (param_id_to_col example_prog2).
                 if fst e = - 1 then w ! snd e = 1
                 else (case ?m2 (fst e) of
                         None \<Rightarrow> False
                       | Some v \<Rightarrow>
                           (case id_to_param example_prog2 (fst e) of
                              None \<Rightarrow> False
                            | Some q \<Rightarrow> slice w (snd e) (param_size q) = flattenF v))"
    by blast
  from b have c2: "slice w 0 1 = [Fin 9] \<and> slice w 1 2 = [Fin 8, Fin 7] \<and> w ! 3 = 1"
    unfolding ps by (simp add: ps param_size_def flattenF_def)
  from apply_parameters_values [of 2 1 example_prog2 "- 1" ?m1 example_numerics] h3
  have c3: "apply_parameters example_numerics (- 1) example_prog2 None
     = apply_parameters example_numerics (- 1) example_prog2 (Some (stored_values example_prog2))"
    by blast
  from c1 w c2 c3 show ?thesis by blast
qed







section \<open>Properties of the reductions' apply\<close>

lemma lower_con_kind:
  assumes "lower_con con n = Inr (con', n')"
  shows "kind con' \<in> {Zero, NonPos, SOC, PSD, ExpCone} \<and> constr_id con' = constr_id con"
  using assms
  by (cases "kind con")
     (auto simp: lower_con_def lower_equality_def lower_inequality_def new_constraint_def
           split: if_splits list.splits)

lemma lower_con_total:
  assumes "wf_args con"
  shows "\<exists>r. lower_con con n = Inr r"
proof -
  have "kind con = Equality \<or> kind con = Inequality \<or> (kind con = SOC \<and> axis con = 1)
        \<Longrightarrow> \<exists>a b rest. args con = a # b # rest"
    using assms unfolding wf_args_def
    by (cases "args con"; cases "tl (args con)") auto
  then show ?thesis
    by (auto simp: lower_con_def lower_equality_def lower_inequality_def)
qed

lemma cone_lower_loop_total:
  assumes "\<forall>con \<in> set cs. wf_args con"
  shows "\<exists>r. cone_lower_loop cs (cons, dvm, n) = Inr r"
  using assms
proof (induction cs arbitrary: cons dvm n)
  case Nil
  then show ?case by simp
next
  case (Cons con cs)
  from Cons.prems lower_con_total[of con n] obtain con' n' where
    "lower_con con n = Inr (con', n')" by auto
  then show ?case using Cons.IH Cons.prems by simp
qed

lemma cone_lower_loop_result:
  assumes "cone_lower_loop cs (cons0, dvm0, n0) = Inr (cons, dvm, n)"
  shows "\<exists>new. cons = cons0 @ new \<and> map constr_id new = map constr_id cs \<and>
           (\<forall>c \<in> set new. kind c \<in> {Zero, NonPos, SOC, PSD, ExpCone})"
  using assms
proof (induction cs arbitrary: cons0 dvm0 n0)
  case Nil
  then show ?case by simp
next
  case (Cons con cs)
  from Cons.prems obtain con' n' where
    l: "lower_con con n0 = Inr (con', n')"
    and r: "cone_lower_loop cs (cons0 @ [con'],
             record_duals (zip (dual_variables con) (dual_variables con')) dvm0, n')
            = Inr (cons, dvm, n)"
    by (auto split: sum.splits)
  from Cons.IH[OF r] obtain new where
    new: "cons = (cons0 @ [con']) @ new" "map constr_id new = map constr_id cs"
      "\<forall>c \<in> set new. kind c \<in> {Zero, NonPos, SOC, PSD, ExpCone}"
    by blast
  have "cons = cons0 @ (con' # new)" using new(1) by simp
  moreover have "map constr_id (con' # new) = map constr_id (con # cs)"
    using new(2) lower_con_kind[OF l] by simp
  moreover have "\<forall>c \<in> set (con' # new). kind c \<in> {Zero, NonPos, SOC, PSD, ExpCone}"
    using new(3) lower_con_kind[OF l] by simp
  ultimately show ?case by blast
qed

lemma mset_five_kinds:
  assumes "\<forall>c \<in> set cons. kind c \<in> {Zero, NonPos, SOC, PSD, ExpCone}"
  shows "mset (filter (\<lambda>c. kind c = Zero) cons @ filter (\<lambda>c. kind c = NonPos) cons
           @ filter (\<lambda>c. kind c = SOC) cons @ filter (\<lambda>c. kind c = PSD) cons
           @ filter (\<lambda>c. kind c = ExpCone) cons) = mset cons"
  using assms by (induction cons) auto

text \<open>
  C8: \<open>ConeMatrixStuffing.apply\<close> returns whenever the lowering finds its arguments,
  and when it returns, the constraint list stored in \<open>InverseData.constraints\<close> is the
  one of the resulting \<open>ParamConeProg\<close>; it is the list \<open>cons\<close> of the lowered
  constraints (one for each constraint of the problem, in order and with the same
  constraint id, each of one of the five kinds) partitioned by kind and concatenated in
  the order Zero, NonPos, SOC, PSD, ExpCone, and it holds every lowered constraint exactly
  as often as \<open>cons\<close> does.
\<close>

theorem cone_apply_ordering:
  "((\<forall>con \<in> set (prob_constraints problem). wf_args con) \<longrightarrow>
      (\<exists>r. cone_apply affine x_length inverse_data problem next_id = Inr r))
   \<and> (cone_apply affine x_length inverse_data problem next_id = Inr (prog, inverse_data', next_id') \<longrightarrow>
      (\<exists>cons. map constr_id cons = map constr_id (prob_constraints problem)
         \<and> (\<forall>c \<in> set cons. kind c \<in> set five_kinds)
         \<and> constraints inverse_data' = concat (map (\<lambda>k. filter (\<lambda>c. kind c = k) cons) five_kinds)
         \<and> prog_constraints prog = constraints inverse_data'
         \<and> mset (constraints inverse_data') = mset cons))"
proof (intro conjI impI)
  assume "\<forall>con \<in> set (prob_constraints problem). wf_args con"
  from cone_lower_loop_total[OF this, of "[]" "dv_id_map inverse_data" "next_id + 1"]
  obtain r where "cone_lower_loop (prob_constraints problem) ([], dv_id_map inverse_data, next_id + 1) = Inr r"
    by blast
  then show "\<exists>r. cone_apply affine x_length inverse_data problem next_id = Inr r"
    by (cases r) (simp add: cone_apply_def Let_def)
next
  assume a: "cone_apply affine x_length inverse_data problem next_id = Inr (prog, inverse_data', next_id')"
  then obtain cons dvm n where
    l: "cone_lower_loop (prob_constraints problem) ([], dv_id_map inverse_data, next_id + 1)
        = Inr (cons, dvm, n)"
    by (auto simp: cone_apply_def Let_def split: sum.splits)
  let ?ord = "filter (\<lambda>c. kind c = Zero) cons @ filter (\<lambda>c. kind c = NonPos) cons
           @ filter (\<lambda>c. kind c = SOC) cons @ filter (\<lambda>c. kind c = PSD) cons
           @ filter (\<lambda>c. kind c = ExpCone) cons"
  from a l have c1: "constraints inverse_data' = ?ord" and c2: "prog_constraints prog = ?ord"
    by (auto simp: cone_apply_def Let_def group_constraints_def)
  from cone_lower_loop_result[OF l] have
    ids: "map constr_id cons = map constr_id (prob_constraints problem)"
    and kinds: "\<forall>c \<in> set cons. kind c \<in> {Zero, NonPos, SOC, PSD, ExpCone}"
    by auto
  have "mset ?ord = mset cons" using mset_five_kinds[OF kinds] .
  then show "\<exists>cons. map constr_id cons = map constr_id (prob_constraints problem)
         \<and> (\<forall>c \<in> set cons. kind c \<in> set five_kinds)
         \<and> constraints inverse_data' = concat (map (\<lambda>k. filter (\<lambda>c. kind c = k) cons) five_kinds)
         \<and> prog_constraints prog = constraints inverse_data'
         \<and> mset (constraints inverse_data') = mset cons"
    using ids kinds c1 c2 by (intro exI[of _ cons]) (simp add: five_kinds_def)
qed

theorem cone_apply_ordering_witness:
  "list_all wf_args (prob_constraints example_problem)
   \<and> (case cone_apply (\<lambda>es. \<lparr>nrows = 0, ncols = 0, mrows = []\<rparr>) 2
             example_inverse_data example_problem 100 of
        Inl e \<Rightarrow> False
      | Inr (prog, idata, n) \<Rightarrow>
          constraints idata =
            [\<lparr>kind = Zero, constr_id = 5, args = [Sub (Opaque 3 [2]) (Opaque 4 [2])],
              dual_variables = [\<lparr>var_id = 102, var_shape = [2]\<rparr>], axis = 0\<rparr>,
             \<lparr>kind = NonPos, constr_id = 4, args = [Sub (Opaque 1 []) (Opaque 2 [])],
              dual_variables = [\<lparr>var_id = 101, var_shape = []\<rparr>], axis = 0\<rparr>]
          \<and> prog_constraints prog = constraints idata)"
  using cone_apply_ordering [of example_problem "\<lambda>es. \<lparr>nrows = 0, ncols = 0, mrows = []\<rparr>" 2
          example_inverse_data 100]
  by (simp add: example_problem_def example_inverse_data_def wf_args_def
        cone_apply_def matrix_apply_def lower_con_def lower_equality_def
        lower_inequality_def new_constraint_def group_constraints_def Let_def expr_size_def)

text \<open>
  C9 fails on \<open>MatrixStuffing.apply\<close>. Its last loop runs over the lowered constraints
  and records, for the dual variables of each copy, the dual variables of the lowered
  constraint. For a constraint that the lowering replaced (an Equality, an Inequality,
  an SOC with axis 1) these are the fresh dual variables of the intermediate constraint
  and not those of the constraint of the input problem. \<open>ConeMatrixStuffing.apply\<close>
  keeps the original constraint as \<open>orig_con\<close> and records its dual variables. In the
  example problem the original dual variables have the ids 6 to 9; the map built by
  \<open>MatrixStuffing.apply\<close> leads to the ids 100 and 101 of the intermediate constraints.
\<close>

theorem matrix_apply_dv_id_map:
  "(case matrix_apply (Opaque 9 []) example_inverse_data example_problem 100 of
      Inl e \<Rightarrow> False
    | Inr ((obj, new_cons), idata, n) \<Rightarrow>
        new_cons =
          [\<lparr>kind = NonPos, constr_id = 4, args = [Opaque 0 []],
            dual_variables = [\<lparr>var_id = 102, var_shape = []\<rparr>], axis = 0\<rparr>,
           \<lparr>kind = Zero, constr_id = 5, args = [Opaque 1 [2]],
            dual_variables = [\<lparr>var_id = 103, var_shape = [2]\<rparr>], axis = 0\<rparr>]
        \<and> dv_id_map idata 102 = Some \<lparr>var_id = 100, var_shape = []\<rparr>
        \<and> dv_id_map idata 103 = Some \<lparr>var_id = 101, var_shape = [2]\<rparr>)
   \<and> (case cone_apply (\<lambda>es. \<lparr>nrows = 0, ncols = 0, mrows = []\<rparr>) 2
             example_inverse_data example_problem 100 of
        Inl e \<Rightarrow> False
      | Inr (prog, idata, n) \<Rightarrow>
          map (map var_id \<circ> dual_variables) (constraints idata) = [[102], [101]]
          \<and> dv_id_map idata 101 = Some \<lparr>var_id = 8, var_shape = []\<rparr>
          \<and> dv_id_map idata 102 = Some \<lparr>var_id = 6, var_shape = [2]\<rparr>)"
  by (simp add: example_problem_def example_inverse_data_def cone_apply_def matrix_apply_def lower_con_def lower_equality_def
        lower_inequality_def new_constraint_def group_constraints_def Let_def expr_size_def)

section \<open>Properties of treat_params_as_affine\<close>

text \<open>
  C7 fails on the exception path. The expression has the one parameter 1, whose flag
  is set before the scope; the body raises. After the scope the flag of the parameter is
  still cleared and the cached constancy of the expression is the one computed for the
  cleared flag: nothing was restored.
\<close>

theorem treat_params_as_affine_exception:
  "is_constant_flag \<lparr>is_constant_flag = (\<lambda>p. True), cached_constant = True\<rparr> 1 = True
   \<and> (case treat_params_as_affine
            \<lparr>expr_parameters = [1], check_is_constant = (\<lambda>flags. flags 1)\<rparr>
            (\<lambda>st. (Inl ''exception'' :: string + unit, st))
            \<lparr>is_constant_flag = (\<lambda>p. True), cached_constant = True\<rparr> of
        (res, st') \<Rightarrow> res = Inl ''exception'' \<and> is_constant_flag st' 1 = False
                      \<and> cached_constant st' = False)"
  by (simp add: treat_params_as_affine_def)

text \<open>
  On the normal exit path the scope does restore: for an expression whose parameters
  are listed once each, and a body that returns and leaves the flags as the scope set
  them, every flag is as before the scope and the cached constancy is recomputed from
  the restored flags.
\<close>

lemma save_flags_fst: "distinct ps \<Longrightarrow> fst (save_flags ps flags) = map flags ps"
  by (induction ps arbitrary: flags) (auto simp: split_beta)

lemma save_flags_snd: "snd (save_flags ps flags) = (\<lambda>p. if p \<in> set ps then False else flags p)"
  by (induction ps arbitrary: flags) (auto simp: split_beta fun_eq_iff)

lemma restore_flags_map:
  "distinct ps \<Longrightarrow> restore_flags (zip ps (map f ps)) flags = (\<lambda>p. if p \<in> set ps then f p else flags p)"
  by (induction ps arbitrary: flags) (auto simp: fun_eq_iff)

lemma treat_params_as_affine_normal:
  assumes "distinct (expr_parameters expr)"
    and "body \<lparr>is_constant_flag = snd (save_flags (expr_parameters expr) (is_constant_flag st)),
               cached_constant = check_is_constant expr (snd (save_flags (expr_parameters expr) (is_constant_flag st)))\<rparr> = (Inr r, st2)"
    and "is_constant_flag st2 = snd (save_flags (expr_parameters expr) (is_constant_flag st))"
  shows "treat_params_as_affine expr body st =
           (Inr r, \<lparr>is_constant_flag = is_constant_flag st,
                    cached_constant = check_is_constant expr (is_constant_flag st)\<rparr>)"
proof -
  have "restore_flags (zip (expr_parameters expr) (map (is_constant_flag st) (expr_parameters expr)))
          (is_constant_flag st2) = is_constant_flag st"
    using assms(1,3) by (auto simp: restore_flags_map save_flags_snd fun_eq_iff)
  then show ?thesis
    using assms by (simp add: treat_params_as_affine_def split_beta save_flags_fst Let_def)
qed

end
